theory Spec2Isabelle
  imports
    Main
    "HOL-Library.Multiset"
    "HOL-Library.Sublist"
    "HOL-Library.Char_ord"
    "HOL-Library.List_Lexorder"
begin

section \<open>SoraStitcher: paths and strings\<close>

text \<open>
  The program handles \<^verbatim>\<open>pathlib.Path\<close> values. Every path it builds is absolute
  (the folder and the output are resolved, the clips are children of the folder, the
  temporary names come from \<^verbatim>\<open>tempfile\<close>), so a path is the list of its components
  below the root. Python compares two paths by their component lists, each component by
  code point, which is the lexicographic order on \<open>string list\<close>.
\<close>

datatype path = Path (parts: "string list")

definition name :: "path \<Rightarrow> string" where
  \<comment> \<open>\<^verbatim>\<open>p.name\<close>: the last component, empty for the root.\<close>
  "name p = (case parts p of [] \<Rightarrow> [] | _ # _ \<Rightarrow> last (parts p))"

definition child :: "path \<Rightarrow> string \<Rightarrow> path" where
  \<comment> \<open>\<^verbatim>\<open>folder / n\<close> for a directory entry \<open>n\<close>, as \<^verbatim>\<open>iterdir\<close> builds it.\<close>
  "child d n = Path (parts d @ [n])"

definition as_posix :: "path \<Rightarrow> string" where
  \<comment> \<open>\<^verbatim>\<open>p.as_posix()\<close>, which is also \<^verbatim>\<open>str(p)\<close> on a POSIX system.\<close>
  "as_posix p = (case parts p of [] \<Rightarrow> ''/'' | _ # _ \<Rightarrow> concat (map (\<lambda>c. CHR ''/'' # c) (parts p)))"

fun rfind :: "char \<Rightarrow> string \<Rightarrow> nat option" where
  \<comment> \<open>\<^verbatim>\<open>s.rfind(c)\<close>: the index of the last occurrence, \<open>None\<close> for Python's -1.\<close>
  "rfind c [] = None"
| "rfind c (x # xs) =
     (case rfind c xs of
        Some i \<Rightarrow> Some (Suc i)
      | None \<Rightarrow> if x = c then Some 0 else None)"

definition path_suffix :: "path \<Rightarrow> string" where
  \<comment> \<open>\<^verbatim>\<open>p.suffix\<close>: from the last dot of the name, unless that dot opens or closes the name.\<close>
  "path_suffix p =
     (let n = name p in
      case rfind CHR ''.'' n of
        None \<Rightarrow> []
      | Some i \<Rightarrow> if 0 < i \<and> Suc i < length n then drop i n else [])"

definition lower_char :: "char \<Rightarrow> char" where
  "lower_char c =
     (let k = (of_char c :: nat) in if 65 \<le> k \<and> k \<le> 90 then char_of (k + 32) else c)"

definition lower :: "string \<Rightarrow> string" where
  \<comment> \<open>\<^verbatim>\<open>s.lower()\<close> on the letters A to Z. No other character lowers to one of
      \<open>.\<close>, \<open>m\<close>, \<open>p\<close>, \<open>4\<close>, so the comparison with \<^verbatim>\<open>".mp4"\<close> is decided by these.\<close>
  "lower s = map lower_char s"

section \<open>The environment of one run\<close>

text \<open>
  What the operating system and the external tools answer is a parameter of the model.
  A process started by \<^verbatim>\<open>subprocess.run\<close> either completes with a return code and its
  standard output, or the call raises something other than \<^verbatim>\<open>CalledProcessError\<close>
  (the executable is missing, the output cannot be decoded). Within one run every command
  line is started at most once, so the answer is a function of the command line.
\<close>

datatype proc = Completed int string | OtherError

record 'g world =
  resolve_user :: "string \<Rightarrow> path"          \<comment> \<open>\<^verbatim>\<open>Path(s).expanduser().resolve()\<close>\<close>
  resolve_in :: "path \<Rightarrow> string \<Rightarrow> path"     \<comment> \<open>\<^verbatim>\<open>(folder / s).resolve()\<close>\<close>
  is_dir :: "path \<Rightarrow> bool"
  is_file :: "path \<Rightarrow> bool"
  exists :: "path \<Rightarrow> bool"
  iterdir :: "path \<Rightarrow> string list"         \<comment> \<open>entry names, in the order the file system lists them\<close>
  spawn :: "string list \<Rightarrow> proc"
  mkstemp :: path                           \<comment> \<open>the name \<^verbatim>\<open>NamedTemporaryFile\<close> picks\<close>
  mkdtemp :: path                           \<comment> \<open>the name \<^verbatim>\<open>TemporaryDirectory\<close> picks\<close>
  entropy :: 'g                             \<comment> \<open>the state of the process-wide generator at start\<close>
  seed_state :: "int \<Rightarrow> 'g"                \<comment> \<open>the state \<^verbatim>\<open>random.seed(n)\<close> installs\<close>
  randbelow :: "'g \<Rightarrow> nat \<Rightarrow> nat \<times> 'g"      \<comment> \<open>the generator's draw below a bound, and its next state\<close>

section \<open>Clip enumeration\<close>

definition is_clip :: "'g world \<Rightarrow> path \<Rightarrow> bool" where
  "is_clip w p \<longleftrightarrow> lower (path_suffix p) = ''.mp4'' \<and> is_file w p"

definition enumerate_clips :: "'g world \<Rightarrow> path \<Rightarrow> path list" where
  \<comment> \<open>\<^verbatim>\<open>sorted([p for p in folder.iterdir() if p.suffix.lower() == ".mp4" and p.is_file()])\<close>\<close>
  "enumerate_clips w folder =
     sort_key parts (filter (is_clip w) (map (child folder) (iterdir w folder)))"

section \<open>Start resolution and order planning\<close>

definition resolve_start :: "'g world \<Rightarrow> path \<Rightarrow> path list \<Rightarrow> string \<Rightarrow> int + path" where
  \<comment> \<open>Lines 188 to 195 of \<^verbatim>\<open>main\<close>; \<open>Inl 4\<close> is \<^verbatim>\<open>return 4\<close>.\<close>
  "resolve_start w folder clips s =
     (let start_path = resolve_in w folder s in
      if \<not> exists w start_path then
        (case filter (\<lambda>p. name p = s) clips of
           c # _ \<Rightarrow> Inr c
         | [] \<Rightarrow> Inl 4)
      else Inr start_path)"

definition swap :: "nat \<Rightarrow> nat \<Rightarrow> 'a list \<Rightarrow> 'a list" where
  \<comment> \<open>\<^verbatim>\<open>x[i], x[j] = x[j], x[i]\<close>\<close>
  "swap i j xs = xs[i := xs ! j, j := xs ! i]"

fun shuffle_loop :: "('g \<Rightarrow> nat \<Rightarrow> nat \<times> 'g) \<Rightarrow> nat \<Rightarrow> 'g \<Rightarrow> 'a list \<Rightarrow> 'a list \<times> 'g" where
  \<comment> \<open>The loop of \<^verbatim>\<open>random.shuffle\<close>, for \<open>i\<close> from the last index down to 1:
      \<^verbatim>\<open>j = randbelow(i + 1)\<close>, then the swap.\<close>
  "shuffle_loop rb 0 g xs = (xs, g)"
| "shuffle_loop rb (Suc k) g xs =
     (let (j, g') = rb g (Suc (Suc k)) in shuffle_loop rb k g' (swap (Suc k) j xs))"

definition shuffle :: "('g \<Rightarrow> nat \<Rightarrow> nat \<times> 'g) \<Rightarrow> 'g \<Rightarrow> 'a list \<Rightarrow> 'a list \<times> 'g" where
  "shuffle rb g xs = shuffle_loop rb (length xs - 1) g xs"

definition randbelow_ok :: "('g \<Rightarrow> nat \<Rightarrow> nat \<times> 'g) \<Rightarrow> bool" where
  \<comment> \<open>The contract of the library's generator: a draw below \<open>n\<close> is less than \<open>n\<close>.\<close>
  "randbelow_ok rb \<longleftrightarrow> (\<forall>g n. 0 < n \<longrightarrow> fst (rb g n) < n)"

definition plan_order :: "'g world \<Rightarrow> int option \<Rightarrow> path list \<Rightarrow> path \<Rightarrow> path list" where
  \<comment> \<open>Lines 197 to 201 of \<^verbatim>\<open>main\<close>.\<close>
  "plan_order w seed clips start_path =
     (let others = filter (\<lambda>p. p \<noteq> start_path) clips;
          g = (case seed of Some n \<Rightarrow> seed_state w n | None \<Rightarrow> entropy w)
      in start_path # fst (shuffle (randbelow w) g others))"

section \<open>Effects\<close>

text \<open>
  The state of a run is the set of files that exist and the record of what the program
  did, in order: the processes it started, the files it wrote and removed, the temporary
  directory it made and tore down. Console output is not part of the model.
\<close>

datatype event =
    Exec "string list"
  | Write path string
  | Unlink path
  | MkDir path
  | RmTree path

record state =
  files :: "path set"
  trace :: "event list"

datatype exn = SystemExit int | OtherExn

definition emit :: "event \<Rightarrow> state \<Rightarrow> state" where
  "emit e st = st\<lparr>trace := trace st @ [e]\<rparr>"

definition create :: "path \<Rightarrow> state \<Rightarrow> state" where
  "create p st = st\<lparr>files := insert p (files st)\<rparr>"

definition leaves :: "proc \<Rightarrow> path \<Rightarrow> state \<Rightarrow> state" where
  \<comment> \<open>A process that was started may leave its destination file behind, whatever its
      return code, and the model takes it that it does; one that could not be started
      leaves nothing.\<close>
  "leaves r dst st = (case r of Completed rc out \<Rightarrow> create dst st | OtherError \<Rightarrow> st)"

definition under :: "path \<Rightarrow> path \<Rightarrow> bool" where
  "under d p \<longleftrightarrow> prefix (parts d) (parts p)"

definition rmtree :: "path \<Rightarrow> state \<Rightarrow> state" where
  \<comment> \<open>The teardown of the temporary directory: the directory and everything below it.\<close>
  "rmtree d st = emit (RmTree d) (st\<lparr>files := Set.filter (\<lambda>p. \<not> under d p) (files st)\<rparr>)"

definition unlink :: "path \<Rightarrow> state \<Rightarrow> state" where
  \<comment> \<open>\<^verbatim>\<open>try: list_path.unlink()\<close> with every exception swallowed. Removing a file the
      program has just made is taken to succeed, so the file is gone afterwards, whether
      it was removed now or was missing already.\<close>
  "unlink p st = emit (Unlink p) (st\<lparr>files := files st - {p}\<rparr>)"

definition run :: "'g world \<Rightarrow> string list \<Rightarrow> state \<Rightarrow> (exn + unit) \<times> state" where
  \<comment> \<open>\<^verbatim>\<open>subprocess.run(cmd, check=True)\<close>; a non-zero return code becomes
      \<^verbatim>\<open>sys.exit(returncode)\<close>, any other exception is not caught.\<close>
  "run w cmd st =
     (let st' = emit (Exec cmd) st in
      case spawn w cmd of
        Completed rc out \<Rightarrow> if rc = 0 then (Inr (), st') else (Inl (SystemExit rc), st')
      | OtherError \<Rightarrow> (Inl OtherExn, st'))"

fun check_tools :: "'g world \<Rightarrow> string list \<Rightarrow> state \<Rightarrow> (exn + unit) \<times> state" where
  "check_tools w [] st = (Inr (), st)"
| "check_tools w (tool # tools) st =
     (let cmd = [tool, ''-version'']; st' = emit (Exec cmd) st in
      case spawn w cmd of
        Completed rc out \<Rightarrow>
          if rc = 0 then check_tools w tools st' else (Inl (SystemExit 1), st')
      | OtherError \<Rightarrow> (Inl (SystemExit 1), st'))"

definition check_ffmpeg :: "'g world \<Rightarrow> state \<Rightarrow> (exn + unit) \<times> state" where
  "check_ffmpeg w st = check_tools w [''ffmpeg'', ''ffprobe''] st"

section \<open>The dimension probe\<close>

text \<open>
  Python's \<^verbatim>\<open>str.strip\<close>, \<^verbatim>\<open>str.split\<close> and \<^verbatim>\<open>int\<close> on the text the probe prints.
  A character of the model is a code point below 256. Of these, \<^verbatim>\<open>str.strip\<close> removes
  the codes 9 to 13, 28 to 32, 133 and 160; \<^verbatim>\<open>int\<close> skips fewer at both ends: 9 to 13,
  32, 133 and 160. An integer literal is an optional sign and decimal digits, with single
  underscores allowed between digits, and at most 4300 digits.
\<close>

definition is_space :: "char \<Rightarrow> bool" where
  \<comment> \<open>\<^verbatim>\<open>c.isspace()\<close>, the white space that \<^verbatim>\<open>str.strip\<close> removes.\<close>
  "is_space c \<longleftrightarrow>
     (let k = (of_char c :: nat)
      in (9 \<le> k \<and> k \<le> 13) \<or> (28 \<le> k \<and> k \<le> 32) \<or> k = 133 \<or> k = 160)"

definition strip :: "string \<Rightarrow> string" where
  "strip s = rev (dropWhile is_space (rev (dropWhile is_space s)))"

definition is_int_space :: "char \<Rightarrow> bool" where
  \<comment> \<open>The white space that \<^verbatim>\<open>int\<close> accepts around a literal: not the codes 28 to 31.\<close>
  "is_int_space c \<longleftrightarrow>
     (let k = (of_char c :: nat) in (9 \<le> k \<and> k \<le> 13) \<or> k = 32 \<or> k = 133 \<or> k = 160)"

definition int_strip :: "string \<Rightarrow> string" where
  "int_strip s = rev (dropWhile is_int_space (rev (dropWhile is_int_space s)))"

fun split_on :: "char \<Rightarrow> string \<Rightarrow> string list" where
  "split_on c [] = [[]]"
| "split_on c (x # xs) =
     (if x = c then [] # split_on c xs
      else (case split_on c xs of
              [] \<Rightarrow> [[x]]
            | p # ps \<Rightarrow> (x # p) # ps))"

definition is_digit :: "char \<Rightarrow> bool" where
  "is_digit c \<longleftrightarrow> (let k = (of_char c :: nat) in 48 \<le> k \<and> k \<le> 57)"

definition digit_val :: "char \<Rightarrow> int" where
  "digit_val c = int (of_char c) - 48"

fun digits_ok :: "string \<Rightarrow> bool" where
  "digits_ok [] = False"
| "digits_ok [c] = is_digit c"
| "digits_ok (c # d # cs) =
     (is_digit c \<and> (if d = CHR ''_'' then digits_ok cs else digits_ok (d # cs)))"

definition decimal :: "string \<Rightarrow> int" where
  \<comment> \<open>The number that a run of digits writes.\<close>
  "decimal ds = foldl (\<lambda>a c. 10 * a + digit_val c) 0 ds"

definition py_int :: "string \<Rightarrow> int option" where
  \<comment> \<open>\<^verbatim>\<open>int(s)\<close>; \<open>None\<close> is \<^verbatim>\<open>ValueError\<close>.\<close>
  "py_int s =
     (let t = int_strip s;
          neg = (case t of [] \<Rightarrow> False | c # _ \<Rightarrow> c = CHR ''-'');
          body = (case t of [] \<Rightarrow> [] | c # r \<Rightarrow> if c = CHR ''-'' \<or> c = CHR ''+'' then r else t);
          ds = filter is_digit body;
          v = decimal ds
      in if digits_ok body \<and> length ds \<le> 4300 then Some (if neg then - v else v) else None)"

definition parse_size :: "string \<Rightarrow> (int \<times> int) option" where
  \<comment> \<open>Lines 76 to 79 of \<^verbatim>\<open>probe_size\<close>; \<open>None\<close> when the text has no \<open>x\<close> or
      when the unpacking or a conversion raises.\<close>
  "parse_size out =
     (let s = strip out in
      if CHR ''x'' \<in> set s then
        (case split_on CHR ''x'' s of
           [w_str, h_str] \<Rightarrow>
             (case py_int w_str of
                None \<Rightarrow> None
              | Some pw \<Rightarrow> (case py_int h_str of None \<Rightarrow> None | Some ph \<Rightarrow> Some (pw, ph)))
         | _ \<Rightarrow> None)
      else None)"

definition probe_cmd :: "path \<Rightarrow> string list" where
  "probe_cmd p =
     [''ffprobe'', ''-v'', ''error'', ''-select_streams'', ''v:0'', ''-show_entries'',
      ''stream=width,height'', ''-of'', ''csv=p=0:s=x'', as_posix p]"

definition probe_result :: "proc \<Rightarrow> int \<times> int" where
  \<comment> \<open>What \<^verbatim>\<open>probe_size\<close> returns for each way the probe can end.\<close>
  "probe_result r =
     (case r of
        Completed rc out \<Rightarrow>
          if rc = 0 then (case parse_size out of Some wh \<Rightarrow> wh | None \<Rightarrow> (1920, 1080))
          else (1920, 1080)
      | OtherError \<Rightarrow> (1920, 1080))"

definition probe_size :: "'g world \<Rightarrow> path \<Rightarrow> state \<Rightarrow> (int \<times> int) \<times> state" where
  "probe_size w p st = (probe_result (spawn w (probe_cmd p)), emit (Exec (probe_cmd p)) st)"

section \<open>Arguments and profile resolution\<close>

record args =
  folder :: string
  start :: string
  outfile :: string                         \<comment> \<open>\<^verbatim>\<open>--output\<close>\<close>
  fps :: int
  width :: "int option"
  height :: "int option"
  crf :: int
  preset :: string
  audio_bitrate :: string
  seed :: "int option"
  fast :: bool

definition truthy :: "int option \<Rightarrow> bool" where
  \<comment> \<open>Python's truth value of an optional integer: \<^verbatim>\<open>None\<close> and 0 are false.\<close>
  "truthy a = (case a of None \<Rightarrow> False | Some v \<Rightarrow> v \<noteq> 0)"

definition py_or :: "int option \<Rightarrow> int \<Rightarrow> int" where
  \<comment> \<open>\<^verbatim>\<open>a or d\<close>\<close>
  "py_or a d = (case a of None \<Rightarrow> d | Some v \<Rightarrow> if v \<noteq> 0 then v else d)"

definition resolve_size :: "'g world \<Rightarrow> args \<Rightarrow> path \<Rightarrow> state \<Rightarrow> (int \<times> int) \<times> state" where
  \<comment> \<open>Lines 205 to 209 of \<^verbatim>\<open>main\<close>.\<close>
  "resolve_size w a start_path st =
     (if truthy (width a) \<and> truthy (height a) then ((the (width a), the (height a)), st)
      else (let ((pw, ph), st') = probe_size w start_path st
            in ((py_or (width a) pw, py_or (height a) ph), st')))"

section \<open>Normalization\<close>

fun str_nat :: "nat \<Rightarrow> string" where
  "str_nat n =
     (if n < 10 then [char_of (48 + n)] else str_nat (n div 10) @ [char_of (48 + n mod 10)])"

declare str_nat.simps [simp del]

definition str_int :: "int \<Rightarrow> string" where
  \<comment> \<open>\<^verbatim>\<open>str(i)\<close>, which is also how an f-string prints an integer.\<close>
  "str_int i = (if i < 0 then CHR ''-'' # str_nat (nat (- i)) else str_nat (nat i))"

definition part_name :: "nat \<Rightarrow> string" where
  \<comment> \<open>\<^verbatim>\<open>f"part_{idx:04d}.mp4"\<close>: the index, zero-padded to four digits at least.\<close>
  "part_name idx =
     (let d = str_nat idx in ''part_'' @ replicate (4 - length d) CHR ''0'' @ d @ ''.mp4'')"

record profile =
  p_fps :: int
  p_size :: "int \<times> int"
  p_crf :: int
  p_preset :: string
  p_audio_bitrate :: string

definition normalize_cmd :: "path \<Rightarrow> path \<Rightarrow> profile \<Rightarrow> string list" where
  "normalize_cmd src dst pr =
     (let w = str_int (fst (p_size pr)); h = str_int (snd (p_size pr));
          vf = ''scale=w='' @ w @ '':h='' @ h @ '':force_original_aspect_ratio=decrease,''
               @ ''pad='' @ w @ '':'' @ h @ '':(ow-iw)/2:(oh-ih)/2:color=black,fps=''
               @ str_int (p_fps pr)
      in [''ffmpeg'', ''-y'', ''-i'', as_posix src, ''-vf'', vf, ''-c:v'', ''libx264'',
          ''-preset'', p_preset pr, ''-crf'', str_int (p_crf pr), ''-pix_fmt'', ''yuv420p'',
          ''-r'', str_int (p_fps pr), ''-c:a'', ''aac'', ''-b:a'', p_audio_bitrate pr,
          ''-ar'', ''48000'', ''-ac'', ''2'', as_posix dst])"

definition normalize_clip ::
    "'g world \<Rightarrow> path \<Rightarrow> path \<Rightarrow> profile \<Rightarrow> state \<Rightarrow> (exn + unit) \<times> state" where
  "normalize_clip w src dst pr st =
     (let cmd = normalize_cmd src dst pr; (r, st') = run w cmd st
      in (r, leaves (spawn w cmd) dst st'))"

fun normalize_all ::
    "'g world \<Rightarrow> profile \<Rightarrow> path \<Rightarrow> nat \<Rightarrow> path list \<Rightarrow> state \<Rightarrow> (exn + path list) \<times> state" where
  \<comment> \<open>The loop of lines 227 to 239: \<open>idx\<close> counts the clips done, the result is
      \<^verbatim>\<open>norm_paths\<close>.\<close>
  "normalize_all w pr td idx [] st = (Inr [], st)"
| "normalize_all w pr td idx (src # rest) st =
     (let dst = child td (part_name idx) in
      case normalize_clip w src dst pr st of
        (Inl e, st') \<Rightarrow> (Inl e, st')
      | (Inr _, st') \<Rightarrow>
          (case normalize_all w pr td (Suc idx) rest st' of
             (Inl e, st'') \<Rightarrow> (Inl e, st'')
           | (Inr ps, st'') \<Rightarrow> (Inr (dst # ps), st'')))"

section \<open>Concatenation\<close>

abbreviation (input) quote :: char where "quote \<equiv> CHR 0x27"
abbreviation (input) backslash :: char where "backslash \<equiv> CHR 0x5C"
abbreviation (input) newline :: char where "newline \<equiv> CHR 0x0A"
abbreviation (input) carriage_return :: char where "carriage_return \<equiv> CHR 0x0D"

definition replace :: "char \<Rightarrow> string \<Rightarrow> string \<Rightarrow> string" where
  \<comment> \<open>\<^verbatim>\<open>s.replace(c, r)\<close> for a pattern of one character.\<close>
  "replace c r s = concat (map (\<lambda>x. if x = c then r else [x]) s)"

definition manifest_line :: "path \<Rightarrow> string" where
  \<comment> \<open>Line 136, as Python 3.12 reads the nested f-string: \<^verbatim>\<open>file '<path>'\<close> and a
      newline, each quote of the path replaced by quote, backslash, quote, quote.\<close>
  "manifest_line p =
     ''file '' @ [quote] @ replace quote [quote, backslash, quote, quote] (as_posix p)
       @ [quote, newline]"

definition manifest :: "path list \<Rightarrow> string" where
  \<comment> \<open>What the loop of lines 135 and 136 has written when it ends.\<close>
  "manifest file_list = foldl (\<lambda>text p. text @ manifest_line p) [] file_list"

definition concat_cmd :: "path \<Rightarrow> path \<Rightarrow> string list" where
  "concat_cmd list_path out =
     [''ffmpeg'', ''-y'', ''-f'', ''concat'', ''-safe'', ''0'', ''-i'', as_posix list_path,
      ''-c'', ''copy'', as_posix out]"

definition concat_via_list ::
    "'g world \<Rightarrow> path list \<Rightarrow> path \<Rightarrow> state \<Rightarrow> (exn + unit) \<times> state" where
  \<comment> \<open>The \<^verbatim>\<open>finally\<close> clause runs on every way out of \<^verbatim>\<open>run\<close>, and the exception,
      if any, goes on to the caller.\<close>
  "concat_via_list w file_list out st =
     (let list_path = mkstemp w;
          st1 = emit (Write list_path (manifest file_list)) (create list_path st);
          cmd = concat_cmd list_path out;
          (r, st2) = run w cmd st1;
          st3 = leaves (spawn w cmd) out st2
      in (r, unlink list_path st3))"

section \<open>The pipeline\<close>

datatype outcome = Returned int | Raised exn

definition exit_status :: "int \<Rightarrow> int" where
  \<comment> \<open>The status a process ends with on \<^verbatim>\<open>SystemExit(c)\<close>: the low eight bits of a
      code that fits a C long of 64 bits, and 255 for one that does not.\<close>
  "exit_status c = (if - (2 ^ 63) \<le> c \<and> c < 2 ^ 63 then c mod 256 else 255)"

definition exit_code :: "outcome \<Rightarrow> int" where
  \<comment> \<open>\<^verbatim>\<open>raise SystemExit(main())\<close>: the status the process ends with. An exception
      other than \<^verbatim>\<open>SystemExit\<close> that nothing catches ends it with status 1.\<close>
  "exit_code r =
     (case r of
        Returned c \<Rightarrow> exit_status c
      | Raised (SystemExit c) \<Rightarrow> exit_status c
      | Raised OtherExn \<Rightarrow> 1)"

definition profile_of :: "args \<Rightarrow> int \<times> int \<Rightarrow> profile" where
  "profile_of a sz =
     \<lparr>p_fps = fps a, p_size = sz, p_crf = crf a, p_preset = preset a,
      p_audio_bitrate = audio_bitrate a\<rparr>"

definition fast_path :: "'g world \<Rightarrow> path list \<Rightarrow> path \<Rightarrow> state \<Rightarrow> outcome \<times> state" where
  \<comment> \<open>Lines 214 to 221: \<^verbatim>\<open>SystemExit\<close> is caught and its code returned.\<close>
  "fast_path w ordered out st =
     (case concat_via_list w ordered out st of
        (Inr _, st') \<Rightarrow> (Returned 0, st')
      | (Inl (SystemExit c), st') \<Rightarrow> (Returned c, st')
      | (Inl OtherExn, st') \<Rightarrow> (Raised OtherExn, st'))"

definition normal_path ::
    "'g world \<Rightarrow> profile \<Rightarrow> path list \<Rightarrow> path \<Rightarrow> state \<Rightarrow> outcome \<times> state" where
  \<comment> \<open>Lines 223 to 245: the temporary directory is torn down on every way out of the
      \<^verbatim>\<open>with\<close> block.\<close>
  "normal_path w pr ordered out st =
     (let td = mkdtemp w;
          st1 = emit (MkDir td) (create td st);
          (r, st2) = (case normalize_all w pr td 0 ordered st1 of
                        (Inl e, s) \<Rightarrow> (Inl e, s)
                      | (Inr norm_paths, s) \<Rightarrow> concat_via_list w norm_paths out s);
          st3 = rmtree td st2
      in (case r of Inl e \<Rightarrow> Raised e | Inr _ \<Rightarrow> Returned 0, st3))"

definition main :: "'g world \<Rightarrow> args \<Rightarrow> state \<Rightarrow> outcome \<times> state" where
  "main w a st =
     (let fld = resolve_user w (folder a) in
      if \<not> is_dir w fld then (Returned 2, st)
      else
        (case check_ffmpeg w st of
           (Inl e, st1) \<Rightarrow> (Raised e, st1)
         | (Inr _, st1) \<Rightarrow>
             (let clips = enumerate_clips w fld in
              if clips = [] then (Returned 3, st1)
              else
                (case resolve_start w fld clips (start a) of
                   Inl c \<Rightarrow> (Returned c, st1)
                 | Inr start_path \<Rightarrow>
                     (let ordered = plan_order w (seed a) clips start_path;
                          (sz, st2) = resolve_size w a start_path st1;
                          out = resolve_user w (outfile a)
                      in if fast a then fast_path w ordered out st2
                         else normal_path w (profile_of a sz) ordered out st2)))))"

section \<open>The joiner's reading of a manifest\<close>

text \<open>
  The joiner is an external tool, ffmpeg's concat demuxer; it is not part of the program.
  To say what a manifest means to it, this is the reading that ffmpeg documents for the
  concat format and its quoting: a manifest is read line by line, a line ending at a
  newline or at a carriage return (a carriage return and the newline after it end one
  line); a line is the keyword \<^verbatim>\<open>file\<close>, white space, and one token. In a token a quote opens a run that is taken
  literally up to the next quote, a backslash outside such a run makes the next character
  literal, and unquoted white space ends the token.
\<close>

definition is_blank :: "char \<Rightarrow> bool" where
  "is_blank c \<longleftrightarrow> c = CHR '' '' \<or> c = newline \<or> c = CHR 0x09 \<or> c = carriage_return"

datatype mode = Plain | Quoted | Escaped

fun token_from :: "mode \<Rightarrow> string \<Rightarrow> string \<times> string" where
  \<comment> \<open>The token read from here on, and the text left unread.\<close>
  "token_from m [] = ([], [])"
| "token_from Plain (c # cs) =
     (if is_blank c then ([], c # cs)
      else if c = backslash \<and> cs \<noteq> [] then token_from Escaped cs
      else if c = quote then token_from Quoted cs
      else (let (t, r) = token_from Plain cs in (c # t, r)))"
| "token_from Escaped (c # cs) = (let (t, r) = token_from Plain cs in (c # t, r))"
| "token_from Quoted (c # cs) =
     (if c = quote then token_from Plain cs
      else (let (t, r) = token_from Quoted cs in (c # t, r)))"

definition read_entry :: "string \<Rightarrow> (string \<times> string) option" where
  \<comment> \<open>One line: the path the joiner opens and what is left of the line after it, or
      \<open>None\<close> when the line is not a \<^verbatim>\<open>file\<close> entry.\<close>
  "read_entry l =
     (let l1 = dropWhile is_blank l;
          keyword = takeWhile (\<lambda>c. \<not> is_blank c) l1;
          r = dropWhile (\<lambda>c. \<not> is_blank c) l1
      in if keyword = ''file'' then Some (token_from Plain (dropWhile is_blank r)) else None)"

fun text_lines :: "string \<Rightarrow> string list" where
  "text_lines [] = []"
| "text_lines [c] = (if c = newline \<or> c = carriage_return then [[]] else [[c]])"
| "text_lines (c # d # cs) =
     (if c = carriage_return \<and> d = newline then [] # text_lines cs
      else if c = newline \<or> c = carriage_return then [] # text_lines (d # cs)
      else (case text_lines (d # cs) of
              [] \<Rightarrow> [[c]]
            | l # ls \<Rightarrow> (c # l) # ls))"

definition line_break :: "char \<Rightarrow> bool" where
  "line_break c \<longleftrightarrow> c = newline \<or> c = carriage_return"

definition read_manifest :: "string \<Rightarrow> (string \<times> string) option list" where
  "read_manifest text = map read_entry (text_lines text)"

section \<open>A sample folder\<close>

text \<open>
  A folder \<^verbatim>\<open>/clips\<close> holding three clips, a text file and a subdirectory, listed by
  the file system in no particular order, and a video \<^verbatim>\<open>/videos/intro.mp4\<close> outside
  it; no symbolic links, and the root as working directory; tools that succeed and print
  nothing; a toy generator that keeps the contract of \<^verbatim>\<open>randbelow\<close>.
\<close>

definition demo_folder :: path where
  "demo_folder = Path [''clips'']"

definition components :: "string \<Rightarrow> string list" where
  "components s = filter (\<lambda>c. c \<noteq> []) (split_on CHR ''/'' s)"

definition demo_world :: "nat world" where
  \<comment> \<open>\<open>resolve_in\<close> is right for names without \<^verbatim>\<open>.\<close> and \<^verbatim>\<open>..\<close> components: a
      relative name is appended to the folder, an absolute one replaces it.\<close>
  "demo_world =
     \<lparr>resolve_user = (\<lambda>s. Path (components s)),
      resolve_in = (\<lambda>d s. case s of
                            [] \<Rightarrow> d
                          | c # _ \<Rightarrow> if c = CHR ''/'' then Path (components s)
                                     else Path (parts d @ components s)),
      is_dir = (\<lambda>p. p \<in> {demo_folder, child demo_folder ''raw'', Path [''videos'']}),
      is_file = (\<lambda>p. p \<in> insert (Path [''videos'', ''intro.mp4''])
                          (child demo_folder ` {''c.mp4'', ''notes.txt'', ''a.MP4'', ''b.mp4''})),
      exists = (\<lambda>p. p \<in> insert (Path [''videos'', ''intro.mp4''])
                         (child demo_folder ` {''c.mp4'', ''notes.txt'', ''raw'', ''a.MP4'', ''b.mp4''})),
      iterdir = (\<lambda>p. if p = demo_folder then [''c.mp4'', ''notes.txt'', ''raw'', ''a.MP4'', ''b.mp4'']
                     else []),
      spawn = (\<lambda>cmd. Completed 0 []),
      mkstemp = Path [''tmp'', ''list.txt''],
      mkdtemp = Path [''tmp'', ''sorastitcher_x''],
      entropy = 5,
      seed_state = (\<lambda>n. nat \<bar>n\<bar>),
      randbelow = (\<lambda>g n. (g mod n, Suc g))\<rparr>"

definition demo_args :: args where
  "demo_args =
     \<lparr>folder = ''clips'', start = ''b.mp4'', outfile = ''Sora_Reel.mp4'', fps = 30,
      width = None, height = None, crf = 20, preset = ''medium'', audio_bitrate = ''192k'',
      seed = Some 7, fast = False\<rparr>"

definition init :: state where
  "init = \<lparr>files = {}, trace = []\<rparr>"

definition probe_world :: "nat world" where
  \<comment> \<open>The sample folder, with a probe that reports 1280 by 720 for \<^verbatim>\<open>b.mp4\<close>.\<close>
  "probe_world =
     demo_world\<lparr>spawn := (\<lambda>cmd. if cmd = probe_cmd (child demo_folder ''b.mp4'')
                                 then Completed 0 (''1280x720'' @ [newline])
                                 else Completed 0 [])\<rparr>"

definition failing_world :: "int \<Rightarrow> nat world" where
  \<comment> \<open>The sample folder, with a transcoder that ends with return code \<open>rc\<close> on
      \<^verbatim>\<open>a.MP4\<close>: an exit status, or minus the number of the signal that killed it.\<close>
  "failing_world rc =
     demo_world\<lparr>spawn := (\<lambda>cmd. if take 4 cmd = [''ffmpeg'', ''-y'', ''-i'', ''/clips/a.MP4'']
                                 then Completed rc []
                                 else Completed 0 [])\<rparr>"

definition odd_world :: "nat world" where
  \<comment> \<open>A folder \<^verbatim>\<open>/clips\<close> that holds \<^verbatim>\<open>b.mp4\<close> and a clip with a newline in its
      name, which a POSIX file system allows.\<close>
  "odd_world =
     demo_world
       \<lparr>is_file := (\<lambda>p. p \<in> child demo_folder ` {''b.mp4'', ''two'' @ [newline] @ ''lines.mp4''}),
        exists := (\<lambda>p. p \<in> child demo_folder ` {''b.mp4'', ''two'' @ [newline] @ ''lines.mp4''}),
        iterdir := (\<lambda>p. if p = demo_folder then [''two'' @ [newline] @ ''lines.mp4'', ''b.mp4'']
                         else [])\<rparr>"

section \<open>Properties of clip enumeration\<close>

lemma inj_parts: "inj_on parts A"
  by (rule inj_onI) (simp add: path.expand)

text \<open>
  C9. Enumeration returns exactly the entries listed directly in the folder that are files
  and whose suffix, lowered, is \<^verbatim>\<open>.mp4\<close>, each as often as it is listed; the result is
  sorted lexicographically by path; and it is the same for every order in which the file
  system lists the same entries.
\<close>

theorem enumerate_clips_exact_sorted:
  "mset (enumerate_clips w d) =
     {#p \<in># image_mset (child d) (mset (iterdir w d)).
        lower (path_suffix p) = ''.mp4'' \<and> is_file w p#}
   \<and> sorted (map parts (enumerate_clips w d))
   \<and> (mset names = mset (iterdir w d) \<longrightarrow>
        enumerate_clips (w\<lparr>iterdir := \<lambda>_. names\<rparr>) d = enumerate_clips w d)"
proof (intro conjI impI)
  show "mset (enumerate_clips w d) =
     {#p \<in># image_mset (child d) (mset (iterdir w d)).
        lower (path_suffix p) = ''.mp4'' \<and> is_file w p#}"
    by (simp add: enumerate_clips_def is_clip_def [abs_def])
  show "sorted (map parts (enumerate_clips w d))"
    by (simp add: enumerate_clips_def)
next
  assume names: "mset names = mset (iterdir w d)"
  have same: "is_clip (w\<lparr>iterdir := \<lambda>_. names\<rparr>) = is_clip w"
    by (simp add: is_clip_def [abs_def])
  have "mset (filter (is_clip w) (map (child d) names)) =
        mset (filter (is_clip w) (map (child d) (iterdir w d)))"
    using names by simp
  then show "enumerate_clips (w\<lparr>iterdir := \<lambda>_. names\<rparr>) d = enumerate_clips w d"
    unfolding enumerate_clips_def same
    by (simp add: sort_key_eq_sort_key [OF _ inj_parts])
qed

theorem enumerate_clips_exact_sorted_witness:
  "mset [''a.MP4'', ''raw'', ''b.mp4'', ''notes.txt'', ''c.mp4''] = mset (iterdir demo_world demo_folder)
   \<and> enumerate_clips
        (demo_world\<lparr>iterdir := \<lambda>_. [''a.MP4'', ''raw'', ''b.mp4'', ''notes.txt'', ''c.mp4'']\<rparr>)
        demo_folder
      = enumerate_clips demo_world demo_folder
   \<and> enumerate_clips demo_world demo_folder =
       [child demo_folder ''a.MP4'', child demo_folder ''b.mp4'', child demo_folder ''c.mp4'']"
proof -
  have h: "mset [''a.MP4'', ''raw'', ''b.mp4'', ''notes.txt'', ''c.mp4'']
           = mset (iterdir demo_world demo_folder)"
    by (simp add: demo_world_def)
  have e: "enumerate_clips demo_world demo_folder =
       [child demo_folder ''a.MP4'', child demo_folder ''b.mp4'', child demo_folder ''c.mp4'']"
    by code_simp
  from enumerate_clips_exact_sorted
         [of demo_world demo_folder "[''a.MP4'', ''raw'', ''b.mp4'', ''notes.txt'', ''c.mp4'']"] h
  have "enumerate_clips
          (demo_world\<lparr>iterdir := \<lambda>_. [''a.MP4'', ''raw'', ''b.mp4'', ''notes.txt'', ''c.mp4'']\<rparr>)
          demo_folder
        = enumerate_clips demo_world demo_folder"
    by blast
  with h e show ?thesis by blast
qed

section \<open>Properties of the concatenation manifest\<close>

lemma foldl_append_acc:
  "foldl (\<lambda>text p. text @ f p) acc ps = acc @ concat (map f ps)"
  by (induction ps arbitrary: acc) simp_all

lemma manifest_concat: "manifest ps = concat (map manifest_line ps)"
  by (simp add: manifest_def foldl_append_acc)

lemma replace_Nil: "replace c r [] = []"
  by (simp add: replace_def)

lemma replace_Cons:
  "replace c r (x # xs) = (if x = c then r else [x]) @ replace c r xs"
  by (simp add: replace_def)

text \<open>
  Inside a quoted run the escaped text reads back as the original: an ordinary character
  is copied, and the four characters that stand for a quote close the run, give one
  literal quote and open the next run.
\<close>

lemma token_from_quoted_run:
  "token_from Quoted (replace quote [quote, backslash, quote, quote] s @ quote # rest)
     = (s @ fst (token_from Plain rest), snd (token_from Plain rest))"
proof (induction s)
  case Nil
  show ?case by (simp add: replace_Nil)
next
  case (Cons c s)
  show ?case
  proof (cases "c = quote")
    case True
    then show ?thesis using Cons.IH
      by (simp add: replace_Cons is_blank_def)
  next
    case False
    then show ?thesis using Cons.IH
      by (simp add: replace_Cons split: prod.splits)
  qed
qed

lemma read_entry_line:
  "read_entry (''file '' @ quote # replace quote [quote, backslash, quote, quote] s @ [quote])
     = Some (s, [])"
  using token_from_quoted_run [of s "[]"]
  by (simp add: read_entry_def is_blank_def)

lemma text_lines_line:
  "\<forall>c \<in> set l. \<not> line_break c \<Longrightarrow> text_lines (l @ newline # rest) = l # text_lines rest"
proof (induction l)
  case Nil
  show ?case by (cases rest) simp_all
next
  case (Cons a l)
  obtain d cs where split: "l @ newline # rest = d # cs"
    by (cases l) simp_all
  from Cons.prems have a: "a \<noteq> newline" "a \<noteq> carriage_return"
    by (simp_all add: line_break_def)
  from Cons have "text_lines (l @ newline # rest) = l # text_lines rest"
    by simp
  then have "text_lines (a # d # cs) = (a # l) # text_lines rest"
    using a by (simp add: split)
  then show ?case by (simp add: split)
qed

lemma set_replace: "set (replace c r s) \<subseteq> set r \<union> set s"
  by (auto simp: replace_def split: if_splits)

lemma line_break_replace:
  assumes "\<forall>c \<in> set s. \<not> line_break c"
  shows "\<forall>c \<in> set (replace quote [quote, backslash, quote, quote] s). \<not> line_break c"
proof
  fix c assume "c \<in> set (replace quote [quote, backslash, quote, quote] s)"
  with set_replace have "c \<in> set [quote, backslash, quote, quote] \<union> set s"
    by blast
  then have "c = quote \<or> c = backslash \<or> c \<in> set s" by auto
  moreover have "\<not> line_break quote" "\<not> line_break backslash"
    by (simp_all add: line_break_def)
  ultimately show "\<not> line_break c" using assms by blast
qed

lemma read_manifest_lines:
  "\<forall>p \<in> set ps. \<forall>c \<in> set (as_posix p). \<not> line_break c \<Longrightarrow>
   read_manifest (concat (map manifest_line ps)) = map (\<lambda>p. Some (as_posix p, [])) ps"
proof (induction ps)
  case Nil
  show ?case by (simp add: read_manifest_def)
next
  case (Cons p ps)
  let ?l = "''file '' @ quote # replace quote [quote, backslash, quote, quote] (as_posix p) @ [quote]"
  have "\<forall>c \<in> set (replace quote [quote, backslash, quote, quote] (as_posix p)). \<not> line_break c"
    using Cons.prems by (intro line_break_replace) simp
  then have nl: "\<forall>c \<in> set ?l. \<not> line_break c"
    by (auto simp: line_break_def)
  have line: "manifest_line p = ?l @ newline # []"
    by (simp add: manifest_line_def)
  have "text_lines (concat (map manifest_line (p # ps))) =
        ?l # text_lines (concat (map manifest_line ps))"
    using text_lines_line [OF nl, of "concat (map manifest_line ps)"]
    by (simp add: line del: text_lines.simps)
  then show ?case using Cons read_entry_line [of "as_posix p"]
    by (simp add: read_manifest_def del: text_lines.simps)
qed

text \<open>
  A path may hold a line break, and the code escapes quotes only. The entry of
  \<^verbatim>\<open>/clips/two<newline>lines.mp4\<close> then spans two lines of the manifest: the joiner
  reads the first as the path \<^verbatim>\<open>/clips/two\<close> and the second as no entry at all. A
  carriage return in a path does the same.
\<close>

theorem line_break_in_path_splits_entry:
  "as_posix (Path [''clips'', ''two'' @ [newline] @ ''lines.mp4''])
     = ''/clips/two'' @ [newline] @ ''lines.mp4''
   \<and> manifest [Path [''clips'', ''two'' @ [newline] @ ''lines.mp4'']]
     = ''file '' @ [quote] @ ''/clips/two'' @ [newline] @ ''lines.mp4'' @ [quote, newline]
   \<and> read_manifest (manifest [Path [''clips'', ''two'' @ [newline] @ ''lines.mp4'']])
     = [Some (''/clips/two'', []), None]
   \<and> read_manifest (manifest [Path [''clips'', ''two'' @ [carriage_return] @ ''lines.mp4'']])
     = [Some (''/clips/two'', []), None]"
  by code_simp

text \<open>
  C6, amended. The manifest is one entry per input, in the order of the inputs; an entry
  is \<^verbatim>\<open>file\<close>, a space, and between two quotes the path with each of its quotes
  replaced by quote, backslash, quote, quote, then a newline. When no path holds a line
  break (a newline or a carriage return), the joiner reads the manifest as exactly the
  paths, one per line and in order, each as one literal path with nothing of its line
  left over, whatever quotes the paths hold.
\<close>

theorem manifest_one_escaped_entry_per_input:
  "manifest file_list =
     concat (map (\<lambda>p. ''file '' @ [quote]
                        @ replace quote [quote, backslash, quote, quote] (as_posix p)
                        @ [quote, newline]) file_list)
   \<and> ((\<forall>p \<in> set file_list. \<forall>c \<in> set (as_posix p). \<not> line_break c) \<longrightarrow>
        read_manifest (manifest file_list) = map (\<lambda>p. Some (as_posix p, [])) file_list)"
proof (intro conjI impI)
  show "manifest file_list =
     concat (map (\<lambda>p. ''file '' @ [quote]
                        @ replace quote [quote, backslash, quote, quote] (as_posix p)
                        @ [quote, newline]) file_list)"
    by (simp add: manifest_concat manifest_line_def [abs_def])
next
  assume "\<forall>p \<in> set file_list. \<forall>c \<in> set (as_posix p). \<not> line_break c"
  then show "read_manifest (manifest file_list) = map (\<lambda>p. Some (as_posix p, [])) file_list"
    by (simp only: manifest_concat read_manifest_lines)
qed

theorem manifest_one_escaped_entry_per_input_witness:
  "manifest [Path [''clips'', ''it'' @ [quote] @ ''s.mp4''], Path [''clips'', ''b.mp4'']]
     = ''file '' @ [quote] @ ''/clips/it'' @ [quote, backslash, quote, quote] @ ''s.mp4''
         @ [quote, newline] @ ''file '' @ [quote] @ ''/clips/b.mp4'' @ [quote, newline]
   \<and> read_manifest (manifest [Path [''clips'', ''it'' @ [quote] @ ''s.mp4''], Path [''clips'', ''b.mp4'']])
     = [Some (''/clips/it'' @ [quote] @ ''s.mp4'', []), Some (''/clips/b.mp4'', [])]"
proof -
  let ?fl = "[Path [''clips'', ''it'' @ [quote] @ ''s.mp4''], Path [''clips'', ''b.mp4'']]"
  have h: "\<forall>p \<in> set ?fl. \<forall>c \<in> set (as_posix p). \<not> line_break c"
    by (simp add: as_posix_def line_break_def)
  from manifest_one_escaped_entry_per_input [of ?fl] h
  have "read_manifest (manifest ?fl) = map (\<lambda>p. Some (as_posix p, [])) ?fl"
    by blast
  moreover have "manifest ?fl
     = ''file '' @ [quote] @ ''/clips/it'' @ [quote, backslash, quote, quote] @ ''s.mp4''
         @ [quote, newline] @ ''file '' @ [quote] @ ''/clips/b.mp4'' @ [quote, newline]"
    by (simp add: manifest_def manifest_line_def as_posix_def replace_def)
  ultimately show ?thesis
    by (simp add: as_posix_def)
qed

text \<open>
  C8. Whatever the joiner does (it succeeds, it exits with a failure status, it cannot be
  started), \<^verbatim>\<open>concat_via_list\<close> writes the manifest, starts the joiner and then
  removes the manifest, in this order; the manifest is gone afterwards, and the joiner's
  failure still reaches the caller.
\<close>

theorem concat_via_list_always_removes_manifest:
  "mkstemp w \<notin> files (snd (concat_via_list w file_list out st))
   \<and> trace (snd (concat_via_list w file_list out st)) =
       trace st @ [Write (mkstemp w) (manifest file_list),
                   Exec (concat_cmd (mkstemp w) out),
                   Unlink (mkstemp w)]
   \<and> fst (concat_via_list w file_list out st) =
       (case spawn w (concat_cmd (mkstemp w) out) of
          Completed rc text \<Rightarrow> if rc = 0 then Inr () else Inl (SystemExit rc)
        | OtherError \<Rightarrow> Inl OtherExn)"
  by (simp add: concat_via_list_def run_def unlink_def emit_def leaves_def create_def Let_def
        split: proc.splits prod.splits)

section \<open>Properties of order planning\<close>

text \<open>
  C3. Two runs, in whatever environments, that use the same generator (the same seeding
  scheme and the same draws) with the same seed on the same sorted clips and the same
  start produce the same play order: with a seed, the order does not depend on the state
  the process-wide generator happened to be in.
\<close>

theorem seeded_order_is_reproducible:
  "seed_state w1 = seed_state w2 \<and> randbelow w1 = randbelow w2 \<longrightarrow>
     plan_order w1 (Some n) clips start_path = plan_order w2 (Some n) clips start_path"
  by (simp add: plan_order_def)

theorem seeded_order_is_reproducible_witness:
  "seed_state demo_world = seed_state (demo_world\<lparr>entropy := 4\<rparr>)
   \<and> randbelow demo_world = randbelow (demo_world\<lparr>entropy := 4\<rparr>)
   \<and> plan_order demo_world (Some 7) (enumerate_clips demo_world demo_folder)
        (child demo_folder ''b.mp4'')
      = plan_order (demo_world\<lparr>entropy := 4\<rparr>) (Some 7) (enumerate_clips demo_world demo_folder)
          (child demo_folder ''b.mp4'')
   \<and> plan_order demo_world (Some 7) (enumerate_clips demo_world demo_folder)
        (child demo_folder ''b.mp4'')
      = [child demo_folder ''b.mp4'', child demo_folder ''a.MP4'', child demo_folder ''c.mp4'']
   \<and> plan_order (demo_world\<lparr>entropy := 4\<rparr>) None (enumerate_clips demo_world demo_folder)
        (child demo_folder ''b.mp4'')
      = [child demo_folder ''b.mp4'', child demo_folder ''c.mp4'', child demo_folder ''a.MP4'']"
proof -
  have h: "seed_state demo_world = seed_state (demo_world\<lparr>entropy := 4\<rparr>)
           \<and> randbelow demo_world = randbelow (demo_world\<lparr>entropy := 4\<rparr>)"
    by simp
  from seeded_order_is_reproducible
         [of demo_world "demo_world\<lparr>entropy := 4\<rparr>" 7
             "enumerate_clips demo_world demo_folder" "child demo_folder ''b.mp4''"] h
  have same: "plan_order demo_world (Some 7) (enumerate_clips demo_world demo_folder)
        (child demo_folder ''b.mp4'')
      = plan_order (demo_world\<lparr>entropy := 4\<rparr>) (Some 7) (enumerate_clips demo_world demo_folder)
          (child demo_folder ''b.mp4'')"
    by blast
  have seeded: "plan_order demo_world (Some 7) (enumerate_clips demo_world demo_folder)
        (child demo_folder ''b.mp4'')
      = [child demo_folder ''b.mp4'', child demo_folder ''a.MP4'', child demo_folder ''c.mp4'']"
    by code_simp
  have unseeded: "plan_order (demo_world\<lparr>entropy := 4\<rparr>) None
        (enumerate_clips demo_world demo_folder) (child demo_folder ''b.mp4'')
      = [child demo_folder ''b.mp4'', child demo_folder ''c.mp4'', child demo_folder ''a.MP4'']"
    by code_simp
  from h same seeded unseeded show ?thesis by blast
qed

section \<open>Properties of profile resolution\<close>










lemma parse_size_no_x: "CHR ''x'' \<notin> set printed \<Longrightarrow> parse_size printed = None"
proof -
  assume "CHR ''x'' \<notin> set printed"
  moreover have "set (strip printed) \<subseteq> set printed"
    by (auto simp: strip_def dest!: set_dropWhileD)
  ultimately show ?thesis by (auto simp: parse_size_def Let_def)
qed




text \<open>
  A dimension given as 0 is outside the range of the profile's dimensions. The code tests
  the arguments by truth value, so it takes such a dimension as not given.
\<close>

lemma zero_dimension_counts_as_not_given:
  "resolve_size probe_world (demo_args\<lparr>width := Some 0, height := Some 1080\<rparr>)
        (child demo_folder ''b.mp4'') init
      = ((1280, 1080), emit (Exec (probe_cmd (child demo_folder ''b.mp4''))) init)"
  by code_simp

section \<open>Properties of the pipeline\<close>

lemma check_ffmpeg_ok:
  "fst (check_ffmpeg w st) = Inr u \<Longrightarrow>
   snd (check_ffmpeg w st) =
     st\<lparr>trace := trace st @ [Exec [''ffmpeg'', ''-version''], Exec [''ffprobe'', ''-version'']]\<rparr>"
  by (auto simp: check_ffmpeg_def emit_def Let_def split: proc.splits if_splits)

lemma main_after_planning:
  assumes "is_dir w (resolve_user w (folder a))"
    and "fst (check_ffmpeg w st) = Inr u"
    and "enumerate_clips w (resolve_user w (folder a)) \<noteq> []"
    and "resolve_start w (resolve_user w (folder a))
           (enumerate_clips w (resolve_user w (folder a))) (start a) = Inr sp"
  shows "main w a st =
     (let ordered = plan_order w (seed a) (enumerate_clips w (resolve_user w (folder a))) sp;
          (sz, st2) = resolve_size w a sp (snd (check_ffmpeg w st));
          out = resolve_user w (outfile a)
      in if fast a then fast_path w ordered out st2
         else normal_path w (profile_of a sz) ordered out st2)"
proof (cases "check_ffmpeg w st")
  case (Pair r st1)
  with assms(2) have "r = Inr u" by simp
  with Pair assms(1,3,4) show ?thesis
    by (simp add: main_def Let_def)
qed

lemma resolve_size_state:
  "snd (resolve_size w a sp st) =
     st\<lparr>trace := trace st @ (if truthy (width a) \<and> truthy (height a) then [] else [Exec (probe_cmd sp)])\<rparr>"
  by (simp add: resolve_size_def probe_size_def emit_def split: prod.splits)

lemma concat_via_list_state:
  "snd (concat_via_list w fl out st) =
     st\<lparr>files := (case spawn w (concat_cmd (mkstemp w) out) of
                     Completed rc printed \<Rightarrow> insert out (insert (mkstemp w) (files st))
                   | OtherError \<Rightarrow> insert (mkstemp w) (files st)) - {mkstemp w},
        trace := trace st @ [Write (mkstemp w) (manifest fl), Exec (concat_cmd (mkstemp w) out),
                             Unlink (mkstemp w)]\<rparr>"
  by (simp add: concat_via_list_def run_def unlink_def emit_def leaves_def create_def Let_def
        split: proc.splits prod.splits)

lemma fast_path_state: "snd (fast_path w ordered out st) = snd (concat_via_list w ordered out st)"
  by (simp add: fast_path_def split: prod.splits sum.splits exn.splits)

lemma fast_run:
  assumes "fast a" and "is_dir w (resolve_user w (folder a))" and "fst (check_ffmpeg w st) = Inr ()"
    and "enumerate_clips w (resolve_user w (folder a)) \<noteq> []"
    and "resolve_start w (resolve_user w (folder a)) (enumerate_clips w (resolve_user w (folder a)))
           (start a) = Inr sp"
  shows "trace (snd (main w a st)) =
           trace st @ [Exec [''ffmpeg'', ''-version''], Exec [''ffprobe'', ''-version'']]
             @ (if truthy (width a) \<and> truthy (height a) then [] else [Exec (probe_cmd sp)])
             @ [Write (mkstemp w)
                  (manifest (plan_order w (seed a) (enumerate_clips w (resolve_user w (folder a))) sp)),
                Exec (concat_cmd (mkstemp w) (resolve_user w (outfile a))),
                Unlink (mkstemp w)]"
    and "files (snd (main w a st)) \<subseteq> insert (resolve_user w (outfile a)) (files st)"
    and "fst (main w a st) =
           (case spawn w (concat_cmd (mkstemp w) (resolve_user w (outfile a))) of
              Completed rc printed \<Rightarrow> Returned rc
            | OtherError \<Rightarrow> Raised OtherExn)"
proof -
  have m: "main w a st =
      fast_path w (plan_order w (seed a) (enumerate_clips w (resolve_user w (folder a))) sp)
        (resolve_user w (outfile a)) (snd (resolve_size w a sp (snd (check_ffmpeg w st))))"
    using assms main_after_planning [of w a st "()" sp]
    by (simp add: Let_def split: prod.splits)
  show "trace (snd (main w a st)) =
           trace st @ [Exec [''ffmpeg'', ''-version''], Exec [''ffprobe'', ''-version'']]
             @ (if truthy (width a) \<and> truthy (height a) then [] else [Exec (probe_cmd sp)])
             @ [Write (mkstemp w)
                  (manifest (plan_order w (seed a) (enumerate_clips w (resolve_user w (folder a))) sp)),
                Exec (concat_cmd (mkstemp w) (resolve_user w (outfile a))),
                Unlink (mkstemp w)]"
    unfolding m fast_path_state concat_via_list_state resolve_size_state
      check_ffmpeg_ok [OF assms(3)]
    by simp
  show "files (snd (main w a st)) \<subseteq> insert (resolve_user w (outfile a)) (files st)"
    unfolding m fast_path_state concat_via_list_state resolve_size_state
      check_ffmpeg_ok [OF assms(3)]
    by (auto split: proc.splits)
  show "fst (main w a st) =
           (case spawn w (concat_cmd (mkstemp w) (resolve_user w (outfile a))) of
              Completed rc printed \<Rightarrow> Returned rc
            | OtherError \<Rightarrow> Raised OtherExn)"
    unfolding m
    by (auto simp: fast_path_def concat_via_list_def run_def Let_def split: proc.splits prod.splits)
qed

lemma manifest_text:
  "manifest file_list =
     concat (map (\<lambda>p. ''file '' @ [quote]
                        @ replace quote [quote, backslash, quote, quote] (as_posix p)
                        @ [quote, newline]) file_list)"
  by (simp add: manifest_concat manifest_line_def [abs_def])

lemma demo_clips:
  "enumerate_clips demo_world demo_folder =
     [child demo_folder ''a.MP4'', child demo_folder ''b.mp4'', child demo_folder ''c.mp4'']"
  by code_simp

lemma demo_reaches_planning:
  "is_dir demo_world (resolve_user demo_world (folder (demo_args\<lparr>fast := True\<rparr>)))
   \<and> fst (check_ffmpeg demo_world init) = Inr ()
   \<and> enumerate_clips demo_world (resolve_user demo_world (folder (demo_args\<lparr>fast := True\<rparr>))) \<noteq> []
   \<and> resolve_start demo_world (resolve_user demo_world (folder (demo_args\<lparr>fast := True\<rparr>)))
         (enumerate_clips demo_world (resolve_user demo_world (folder (demo_args\<lparr>fast := True\<rparr>))))
         (start (demo_args\<lparr>fast := True\<rparr>)) = Inr (child demo_folder ''b.mp4'')"
  by code_simp

lemma odd_planning:
  "is_dir odd_world (resolve_user odd_world (folder (demo_args\<lparr>fast := True\<rparr>)))
   \<and> fst (check_ffmpeg odd_world init) = Inr ()
   \<and> enumerate_clips odd_world (resolve_user odd_world (folder (demo_args\<lparr>fast := True\<rparr>))) \<noteq> []
   \<and> resolve_start odd_world (resolve_user odd_world (folder (demo_args\<lparr>fast := True\<rparr>)))
         (enumerate_clips odd_world (resolve_user odd_world (folder (demo_args\<lparr>fast := True\<rparr>))))
         (start (demo_args\<lparr>fast := True\<rparr>)) = Inr (child demo_folder ''b.mp4'')
   \<and> plan_order odd_world (seed (demo_args\<lparr>fast := True\<rparr>))
         (enumerate_clips odd_world (resolve_user odd_world (folder (demo_args\<lparr>fast := True\<rparr>))))
         (child demo_folder ''b.mp4'')
       = [child demo_folder ''b.mp4'', child demo_folder (''two'' @ [newline] @ ''lines.mp4'')]
   \<and> resolve_user odd_world (outfile (demo_args\<lparr>fast := True\<rparr>)) = Path [''Sora_Reel.mp4'']"
  by code_simp

text \<open>
  A clip whose name holds a newline is enumerated and planned like any other. In fast mode
  its entry in the manifest spans two lines, and the joiner does not read the manifest as
  the clips of the play order: it reads a path that is no clip, and a line that is no
  entry.
\<close>

theorem line_break_in_clip_breaks_fast_join:
  "trace (snd (main odd_world (demo_args\<lparr>fast := True\<rparr>) init)) =
       [Exec [''ffmpeg'', ''-version''], Exec [''ffprobe'', ''-version''],
        Exec (probe_cmd (child demo_folder ''b.mp4'')),
        Write (mkstemp odd_world)
          (''file '' @ [quote] @ ''/clips/b.mp4'' @ [quote, newline]
           @ ''file '' @ [quote] @ ''/clips/two'' @ [newline] @ ''lines.mp4'' @ [quote, newline]),
        Exec (concat_cmd (mkstemp odd_world) (Path [''Sora_Reel.mp4''])),
        Unlink (mkstemp odd_world)]
   \<and> read_manifest
         (''file '' @ [quote] @ ''/clips/b.mp4'' @ [quote, newline]
          @ ''file '' @ [quote] @ ''/clips/two'' @ [newline] @ ''lines.mp4'' @ [quote, newline])
       = [Some (''/clips/b.mp4'', []), Some (''/clips/two'', []), None]
   \<and> map as_posix [child demo_folder ''b.mp4'', child demo_folder (''two'' @ [newline] @ ''lines.mp4'')]
       = [''/clips/b.mp4'', ''/clips/two'' @ [newline] @ ''lines.mp4'']"
proof -
  let ?a = "demo_args\<lparr>fast := True\<rparr>"
  let ?ordered = "[child demo_folder ''b.mp4'', child demo_folder (''two'' @ [newline] @ ''lines.mp4'')]"
  have f: "fast ?a" by simp
  have size: "\<not> (truthy (width ?a) \<and> truthy (height ?a))"
    by (simp add: demo_args_def truthy_def)
  note h = odd_planning
  have written: "manifest ?ordered
       = ''file '' @ [quote] @ ''/clips/b.mp4'' @ [quote, newline]
         @ ''file '' @ [quote] @ ''/clips/two'' @ [newline] @ ''lines.mp4'' @ [quote, newline]"
    by (simp add: manifest_def manifest_line_def as_posix_def child_def demo_folder_def replace_def)
  have tr: "trace (snd (main odd_world ?a init)) =
       [Exec [''ffmpeg'', ''-version''], Exec [''ffprobe'', ''-version''],
        Exec (probe_cmd (child demo_folder ''b.mp4'')),
        Write (mkstemp odd_world) (manifest ?ordered),
        Exec (concat_cmd (mkstemp odd_world) (Path [''Sora_Reel.mp4''])),
        Unlink (mkstemp odd_world)]"
    using fast_run(1) [OF f h [THEN conjunct1] h [THEN conjunct2, THEN conjunct1]
             h [THEN conjunct2, THEN conjunct2, THEN conjunct1]
             h [THEN conjunct2, THEN conjunct2, THEN conjunct2, THEN conjunct1]]
          size h
    by (simp add: init_def)
  have rd: "read_manifest
         (''file '' @ [quote] @ ''/clips/b.mp4'' @ [quote, newline]
          @ ''file '' @ [quote] @ ''/clips/two'' @ [newline] @ ''lines.mp4'' @ [quote, newline])
       = [Some (''/clips/b.mp4'', []), Some (''/clips/two'', []), None]"
    by code_simp
  have ps: "map as_posix ?ordered = [''/clips/b.mp4'', ''/clips/two'' @ [newline] @ ''lines.mp4'']"
    by (simp add: as_posix_def child_def demo_folder_def)
  from tr [unfolded written] rd ps show ?thesis by blast
qed

text \<open>
  C7, amended. A fast-mode run that reaches order planning does exactly this, after the
  two tool checks and the probe (if any): it writes the manifest, one escaped
  \<^verbatim>\<open>file\<close> entry for each source clip in play order; it starts the joiner on that
  manifest with \<^verbatim>\<open>-c copy\<close> and the output path; and it removes the manifest. No
  temporary directory is made and no transcoder is started, so no intermediate clip
  exists; the only file the run can add is the output. The run returns the joiner's
  return code. When no clip path holds a line break, the joiner reads the manifest as
  exactly the source clips in play order.
\<close>

theorem fast_mode_joins_sources_directly:
  fixes w :: "'g world" and a :: args and sp :: path
  defines "fld \<equiv> resolve_user w (folder a)"
  defines "clips \<equiv> enumerate_clips w fld"
  defines "out \<equiv> resolve_user w (outfile a)"
  defines "ordered \<equiv> plan_order w (seed a) clips sp"
  defines "listing \<equiv>
     concat (map (\<lambda>p. ''file '' @ [quote]
                        @ replace quote [quote, backslash, quote, quote] (as_posix p)
                        @ [quote, newline]) ordered)"
  defines "join \<equiv>
     [''ffmpeg'', ''-y'', ''-f'', ''concat'', ''-safe'', ''0'', ''-i'', as_posix (mkstemp w),
      ''-c'', ''copy'', as_posix out]"
  assumes "fast a" and "is_dir w fld" and "fst (check_ffmpeg w st) = Inr ()"
    and "clips \<noteq> []" and "resolve_start w fld clips (start a) = Inr sp"
  shows "trace (snd (main w a st)) =
           trace st @ [Exec [''ffmpeg'', ''-version''], Exec [''ffprobe'', ''-version'']]
             @ (if truthy (width a) \<and> truthy (height a) then []
                else [Exec [''ffprobe'', ''-v'', ''error'', ''-select_streams'', ''v:0'',
                            ''-show_entries'', ''stream=width,height'', ''-of'', ''csv=p=0:s=x'',
                            as_posix sp]])
             @ [Write (mkstemp w) listing, Exec join, Unlink (mkstemp w)]
         \<and> ((\<forall>p \<in> set ordered. \<forall>c \<in> set (as_posix p). \<not> line_break c) \<longrightarrow>
              read_manifest listing = map (\<lambda>p. Some (as_posix p, [])) ordered)
         \<and> files (snd (main w a st)) \<subseteq> insert out (files st)
         \<and> fst (main w a st) =
             (case spawn w join of
                Completed rc printed \<Rightarrow> Returned rc
              | OtherError \<Rightarrow> Raised OtherExn)"
proof -
  note run = fast_run [OF assms(7-11) [unfolded fld_def clips_def]]
  have l: "listing = manifest ordered"
    by (simp add: listing_def manifest_text)
  have j: "join = concat_cmd (mkstemp w) out"
    by (simp add: join_def concat_cmd_def)
  have "(\<forall>p \<in> set ordered. \<forall>c \<in> set (as_posix p). \<not> line_break c) \<longrightarrow>
        read_manifest listing = map (\<lambda>p. Some (as_posix p, [])) ordered"
    unfolding l manifest_concat using read_manifest_lines [of ordered] by blast
  then show ?thesis
    using run unfolding l j ordered_def out_def clips_def fld_def
    by (simp add: probe_cmd_def)
qed


theorem fast_mode_joins_sources_directly_witness:
  "fast (demo_args\<lparr>fast := True\<rparr>)
   \<and> trace (snd (main demo_world (demo_args\<lparr>fast := True\<rparr>) init)) =
       [Exec [''ffmpeg'', ''-version''], Exec [''ffprobe'', ''-version''],
        Exec (probe_cmd (child demo_folder ''b.mp4'')),
        Write (mkstemp demo_world)
          (manifest [child demo_folder ''b.mp4'', child demo_folder ''a.MP4'', child demo_folder ''c.mp4'']),
        Exec (concat_cmd (mkstemp demo_world) (Path [''Sora_Reel.mp4''])),
        Unlink (mkstemp demo_world)]
   \<and> manifest [child demo_folder ''b.mp4'', child demo_folder ''a.MP4'', child demo_folder ''c.mp4'']
       = ''file '' @ [quote] @ ''/clips/b.mp4'' @ [quote, newline]
         @ ''file '' @ [quote] @ ''/clips/a.MP4'' @ [quote, newline]
         @ ''file '' @ [quote] @ ''/clips/c.mp4'' @ [quote, newline]
   \<and> read_manifest
         (manifest [child demo_folder ''b.mp4'', child demo_folder ''a.MP4'', child demo_folder ''c.mp4''])
       = [Some (''/clips/b.mp4'', []), Some (''/clips/a.MP4'', []), Some (''/clips/c.mp4'', [])]
   \<and> fst (main demo_world (demo_args\<lparr>fast := True\<rparr>) init) = Returned 0"
proof -
  let ?a = "demo_args\<lparr>fast := True\<rparr>"
  let ?ordered = "[child demo_folder ''b.mp4'', child demo_folder ''a.MP4'', child demo_folder ''c.mp4'']"
  have f: "fast ?a" by simp
  have fld: "resolve_user demo_world (folder ?a) = demo_folder"
    by code_simp
  have order: "plan_order demo_world (seed ?a) (enumerate_clips demo_world demo_folder)
                 (child demo_folder ''b.mp4'') = ?ordered"
    by code_simp
  have size: "\<not> (truthy (width ?a) \<and> truthy (height ?a))"
    by (simp add: demo_args_def truthy_def)
  have out: "resolve_user demo_world (outfile ?a) = Path [''Sora_Reel.mp4'']"
    by code_simp
  have sp: "spawn demo_world cmd = Completed 0 []" for cmd
    by (simp add: demo_world_def)
  have plain: "\<forall>p \<in> set ?ordered. \<forall>c \<in> set (as_posix p). \<not> line_break c"
    by (simp add: as_posix_def child_def demo_folder_def line_break_def)
  have written: "manifest ?ordered
       = ''file '' @ [quote] @ ''/clips/b.mp4'' @ [quote, newline]
         @ ''file '' @ [quote] @ ''/clips/a.MP4'' @ [quote, newline]
         @ ''file '' @ [quote] @ ''/clips/c.mp4'' @ [quote, newline]"
    by (simp add: manifest_def manifest_line_def as_posix_def child_def demo_folder_def replace_def)
  note h = demo_reaches_planning
  note inst = fast_mode_joins_sources_directly
         [OF f h [THEN conjunct1] h [THEN conjunct2, THEN conjunct1]
             h [THEN conjunct2, THEN conjunct2, THEN conjunct1]
             h [THEN conjunct2, THEN conjunct2, THEN conjunct2],
          unfolded fld order out manifest_text [symmetric] concat_cmd_def [symmetric]
            probe_cmd_def [symmetric]]
  from inst plain have "read_manifest (manifest ?ordered) = map (\<lambda>p. Some (as_posix p, [])) ?ordered"
    by blast
  then have rd: "read_manifest (manifest ?ordered)
       = [Some (''/clips/b.mp4'', []), Some (''/clips/a.MP4'', []), Some (''/clips/c.mp4'', [])]"
    by (simp add: as_posix_def child_def demo_folder_def)
  from inst size have tr: "trace (snd (main demo_world ?a init)) =
       [Exec [''ffmpeg'', ''-version''], Exec [''ffprobe'', ''-version''],
        Exec (probe_cmd (child demo_folder ''b.mp4'')),
        Write (mkstemp demo_world) (manifest ?ordered),
        Exec (concat_cmd (mkstemp demo_world) (Path [''Sora_Reel.mp4''])),
        Unlink (mkstemp demo_world)]"
    by (simp add: init_def)
  from inst have res: "fst (main demo_world ?a init) = Returned 0"
    by (simp add: sp)
  from f tr written rd res show ?thesis by blast
qed

lemma probe_cmd_not_version: "[tool, ''-version''] \<noteq> probe_cmd p"
  by (simp add: probe_cmd_def)

lemma probe_cmd_not_concat: "concat_cmd m out \<noteq> probe_cmd p"
  by (simp add: probe_cmd_def concat_cmd_def)

lemma check_ffmpeg_other_probe:
  "check_ffmpeg (w\<lparr>spawn := (spawn w)(probe_cmd p := r)\<rparr>) st = check_ffmpeg w st"
  by (simp add: check_ffmpeg_def probe_cmd_not_version Let_def split: proc.splits)

lemma enumerate_clips_other_spawn:
  "enumerate_clips (w\<lparr>spawn := f\<rparr>) d = enumerate_clips w d"
  by (simp add: enumerate_clips_def is_clip_def [abs_def])

lemma resolve_start_other_spawn:
  "resolve_start (w\<lparr>spawn := f\<rparr>) d clips s = resolve_start w d clips s"
  by (simp add: resolve_start_def)

lemma plan_order_other_spawn:
  "plan_order (w\<lparr>spawn := f\<rparr>) sd clips sp = plan_order w sd clips sp"
  by (simp add: plan_order_def split: option.splits)

lemma fast_path_other_probe:
  "fast_path (w\<lparr>spawn := (spawn w)(probe_cmd p := r)\<rparr>) ordered out st = fast_path w ordered out st"
  by (simp add: fast_path_def concat_via_list_def run_def probe_cmd_not_concat Let_def)

text \<open>
  C10. When width and height are not both given, a fast-mode run that reaches order
  planning starts the dimension probe (\<^verbatim>\<open>ffprobe\<close>, asking for the width and height
  of the first video stream) on the starting clip all the same; and whatever the probe
  answers, the run is the same run with the same result: nothing in fast mode depends on
  the resolved size. (The progress line that prints the size is console output, which the
  model leaves out.)
\<close>

theorem fast_mode_still_probes:
  fixes w :: "'g world" and a :: args
  defines "fld \<equiv> resolve_user w (folder a)"
  defines "clips \<equiv> enumerate_clips w fld"
  assumes "fast a" and "\<not> (truthy (width a) \<and> truthy (height a))"
    and "is_dir w fld" and "fst (check_ffmpeg w st) = Inr ()"
    and "clips \<noteq> []" and "resolve_start w fld clips (start a) = Inr sp"
  shows "Exec [''ffprobe'', ''-v'', ''error'', ''-select_streams'', ''v:0'', ''-show_entries'',
               ''stream=width,height'', ''-of'', ''csv=p=0:s=x'', as_posix sp]
           \<in> set (drop (length (trace st)) (trace (snd (main w a st))))
         \<and> probe_cmd sp =
             [''ffprobe'', ''-v'', ''error'', ''-select_streams'', ''v:0'', ''-show_entries'',
              ''stream=width,height'', ''-of'', ''csv=p=0:s=x'', as_posix sp]
         \<and> main (w\<lparr>spawn := (spawn w)(probe_cmd sp := r)\<rparr>) a st = main w a st"
proof -
  let ?w = "w\<lparr>spawn := (spawn w)(probe_cmd sp := r)\<rparr>"
  let ?ordered = "plan_order w (seed a) clips sp"
  let ?out = "resolve_user w (outfile a)"
  let ?st1 = "snd (check_ffmpeg w st)"
  have m: "main w a st = fast_path w ?ordered ?out (snd (resolve_size w a sp ?st1))"
    using assms main_after_planning [of w a st "()" sp]
    by (simp add: Let_def split: prod.splits)
  have "main ?w a st = fast_path ?w ?ordered ?out (snd (resolve_size ?w a sp ?st1))"
    using assms main_after_planning [of ?w a st "()" sp]
    by (simp add: Let_def check_ffmpeg_other_probe enumerate_clips_other_spawn
          resolve_start_other_spawn plan_order_other_spawn split: prod.splits)
  then have same: "main ?w a st = main w a st"
    unfolding m by (simp only: fast_path_other_probe resolve_size_state)
  have cmd: "probe_cmd sp =
             [''ffprobe'', ''-v'', ''error'', ''-select_streams'', ''v:0'', ''-show_entries'',
              ''stream=width,height'', ''-of'', ''csv=p=0:s=x'', as_posix sp]"
    by (simp add: probe_cmd_def)
  have "Exec (probe_cmd sp) \<in> set (drop (length (trace st)) (trace (snd (main w a st))))"
    using fast_run(1) [OF assms(3,5-8) [unfolded fld_def clips_def]] assms(4)
    by simp
  with same cmd show ?thesis by simp
qed

theorem fast_mode_still_probes_witness:
  "fast (demo_args\<lparr>fast := True\<rparr>)
   \<and> width (demo_args\<lparr>fast := True\<rparr>) = None
   \<and> Exec [''ffprobe'', ''-v'', ''error'', ''-select_streams'', ''v:0'', ''-show_entries'',
            ''stream=width,height'', ''-of'', ''csv=p=0:s=x'', ''/clips/b.mp4'']
       \<in> set (trace (snd (main demo_world (demo_args\<lparr>fast := True\<rparr>) init)))
   \<and> main probe_world (demo_args\<lparr>fast := True\<rparr>) init
       = main demo_world (demo_args\<lparr>fast := True\<rparr>) init"
proof -
  let ?a = "demo_args\<lparr>fast := True\<rparr>"
  let ?b = "child demo_folder ''b.mp4''"
  have f: "fast ?a" by simp
  have size: "\<not> (truthy (width ?a) \<and> truthy (height ?a))"
    by (simp add: demo_args_def truthy_def)
  have pw: "probe_world
      = demo_world\<lparr>spawn := (spawn demo_world)(probe_cmd ?b := Completed 0 (''1280x720'' @ [newline]))\<rparr>"
    by (simp add: probe_world_def demo_world_def fun_eq_iff)
  have b: "as_posix ?b = ''/clips/b.mp4''"
    by (simp add: as_posix_def child_def demo_folder_def)
  note h = demo_reaches_planning
  from fast_mode_still_probes
         [OF f size h [THEN conjunct1] h [THEN conjunct2, THEN conjunct1]
             h [THEN conjunct2, THEN conjunct2, THEN conjunct1]
             h [THEN conjunct2, THEN conjunct2, THEN conjunct2],
          of "Completed 0 (''1280x720'' @ [newline])"]
  show ?thesis
    unfolding pw [symmetric] init_def b
    using f by (simp add: demo_args_def)
qed

section \<open>Failure of a normalization\<close>

lemma normalize_clip_ok:
  "spawn w (normalize_cmd src dst pr) = Completed 0 printed \<Longrightarrow>
   normalize_clip w src dst pr st =
     (Inr (), st\<lparr>files := insert dst (files st),
                  trace := trace st @ [Exec (normalize_cmd src dst pr)]\<rparr>)"
  by (simp add: normalize_clip_def run_def emit_def leaves_def create_def)

lemma normalize_clip_fails:
  "spawn w (normalize_cmd src dst pr) = Completed rc printed \<Longrightarrow> rc \<noteq> 0 \<Longrightarrow>
   normalize_clip w src dst pr st =
     (Inl (SystemExit rc), st\<lparr>files := insert dst (files st),
                               trace := trace st @ [Exec (normalize_cmd src dst pr)]\<rparr>)"
  by (simp add: normalize_clip_def run_def emit_def leaves_def create_def)

lemma normalize_all_fails_at:
  assumes "k < length srcs"
    and "\<forall>i<k. \<exists>printed.
           spawn w (normalize_cmd (srcs ! i) (child td (part_name (idx + i))) pr) = Completed 0 printed"
    and "spawn w (normalize_cmd (srcs ! k) (child td (part_name (idx + k))) pr) = Completed rc printed"
    and "rc \<noteq> 0"
  shows "normalize_all w pr td idx srcs st =
     (Inl (SystemExit rc),
      st\<lparr>files := files st \<union> (\<lambda>i. child td (part_name (idx + i))) ` {..k},
         trace := trace st @
           map (\<lambda>i. Exec (normalize_cmd (srcs ! i) (child td (part_name (idx + i))) pr)) [0..<Suc k]\<rparr>)"
  using assms
proof (induction srcs arbitrary: k idx st)
  case Nil
  then show ?case by simp
next
  case (Cons src rest)
  show ?case
  proof (cases k)
    case 0
    with Cons.prems show ?thesis
      by (simp add: normalize_clip_fails Let_def)
  next
    case (Suc j)
    from Cons.prems(2) Suc obtain printed0 where
      first: "spawn w (normalize_cmd src (child td (part_name idx)) pr) = Completed 0 printed0"
      by fastforce
    have j: "j < length rest" using Cons.prems(1) Suc by simp
    have before: "\<forall>i<j. \<exists>printed.
        spawn w (normalize_cmd (rest ! i) (child td (part_name (Suc idx + i))) pr) = Completed 0 printed"
    proof (intro allI impI)
      fix i assume "i < j"
      then have "Suc i < k" using Suc by simp
      with Cons.prems(2) show "\<exists>printed.
        spawn w (normalize_cmd (rest ! i) (child td (part_name (Suc idx + i))) pr) = Completed 0 printed"
        by fastforce
    qed
    have at: "spawn w (normalize_cmd (rest ! j) (child td (part_name (Suc idx + j))) pr) = Completed rc printed"
      using Cons.prems(3) Suc by simp
    note IH = Cons.IH [OF j before at Cons.prems(4)]
    have img: "insert (child td (part_name idx)) ((\<lambda>i. child td (part_name (Suc (idx + i)))) ` {..j})
               = (\<lambda>i. child td (part_name (idx + i))) ` {..Suc j}"
      by (simp add: atMost_Suc_eq_insert_0 image_image)
    have mp: "map (\<lambda>i. Exec (normalize_cmd ((src # rest) ! i) (child td (part_name (idx + i))) pr)) [0..<Suc (Suc j)]
        = Exec (normalize_cmd src (child td (part_name idx)) pr)
          # map (\<lambda>i. Exec (normalize_cmd (rest ! i) (child td (part_name (Suc (idx + i)))) pr)) [0..<Suc j]"
      by (simp only: upt_conv_Cons [of 0] map_Suc_upt [symmetric] list.map) (simp add: comp_def)
    show ?thesis
      by (simp add: normalize_clip_ok [OF first] IH Suc img [symmetric] mp Un_insert_left Let_def
               del: upt_Suc)
  qed
qed


lemma under_self: "under d d"
  by (simp add: under_def)

lemma under_child: "under d (child d n)"
  by (simp add: under_def child_def)

lemma normal_path_fails_at:
  assumes "k < length ordered"
    and "\<forall>i<k. \<exists>printed.
           spawn w (normalize_cmd (ordered ! i) (child (mkdtemp w) (part_name i)) pr) = Completed 0 printed"
    and "spawn w (normalize_cmd (ordered ! k) (child (mkdtemp w) (part_name k)) pr) = Completed rc printed"
    and "rc \<noteq> 0"
  shows "normal_path w pr ordered out st =
     (Raised (SystemExit rc),
      st\<lparr>files := Set.filter (\<lambda>p. \<not> under (mkdtemp w) p) (files st),
         trace := trace st @ [MkDir (mkdtemp w)]
           @ map (\<lambda>i. Exec (normalize_cmd (ordered ! i) (child (mkdtemp w) (part_name i)) pr)) [0..<Suc k]
           @ [RmTree (mkdtemp w)]\<rparr>)"
proof -
  let ?td = "mkdtemp w"
  let ?st1 = "emit (MkDir ?td) (create ?td st)"
  have loop: "normalize_all w pr ?td 0 ordered ?st1 =
     (Inl (SystemExit rc),
      ?st1\<lparr>files := files ?st1 \<union> (\<lambda>i. child ?td (part_name (0 + i))) ` {..k},
           trace := trace ?st1 @
             map (\<lambda>i. Exec (normalize_cmd (ordered ! i) (child ?td (part_name (0 + i))) pr)) [0..<Suc k]\<rparr>)"
    by (rule normalize_all_fails_at) (use assms in simp_all)
  have gone: "Set.filter (\<lambda>p. \<not> under ?td p)
                (insert ?td (files st) \<union> (\<lambda>i. child ?td (part_name i)) ` {..k})
              = Set.filter (\<lambda>p. \<not> under ?td p) (files st)"
    by (auto simp: under_self under_child)
  show ?thesis
    unfolding normal_path_def Let_def loop
    using gone by (simp add: rmtree_def emit_def create_def del: upt_Suc)
qed

text \<open>
  C5. In a normal run that reaches order planning, let the transcoder succeed on the
  first \<open>k\<close> clips of the play order and end with a return code \<open>rc\<close> other than 0 on
  the next one. Then the run ends by \<^verbatim>\<open>SystemExit\<close> carrying that return code, and for
  a return code between -255 and 255 (an exit status, or minus a signal number) the
  process ends with its low eight bits as status. The whole trace of the run is: the tool
  checks, the probe if any, the temporary directory made, the transcoder started on the
  clips up to and including the failing one, in order, and the directory torn down. So
  no later clip is processed and the joiner is never started: no manifest and no output
  are written. Afterwards no file at or below the temporary directory is left, and no
  file exists that did not exist before.
\<close>

theorem transcoder_failure_aborts_run:
  fixes w :: "'g world" and a :: args
  defines "fld \<equiv> resolve_user w (folder a)"
  defines "clips \<equiv> enumerate_clips w fld"
  assumes "\<not> fast a" and "is_dir w fld" and "fst (check_ffmpeg w st) = Inr ()"
    and "clips \<noteq> []" and "resolve_start w fld clips (start a) = Inr sp"
    and "ordered = plan_order w (seed a) clips sp"
    and "pr = profile_of a (fst (resolve_size w a sp (snd (check_ffmpeg w st))))"
    and "k < length ordered"
    and "\<forall>i<k. \<exists>printed.
           spawn w (normalize_cmd (ordered ! i) (child (mkdtemp w) (part_name i)) pr) = Completed 0 printed"
    and "spawn w (normalize_cmd (ordered ! k) (child (mkdtemp w) (part_name k)) pr) = Completed rc printed"
    and "rc \<noteq> 0"
  shows "fst (main w a st) = Raised (SystemExit rc)
         \<and> (- 256 < rc \<and> rc < 256 \<longrightarrow> exit_code (fst (main w a st)) = rc mod 256)
         \<and> trace (snd (main w a st)) =
             trace st @ [Exec [''ffmpeg'', ''-version''], Exec [''ffprobe'', ''-version'']]
               @ (if truthy (width a) \<and> truthy (height a) then [] else [Exec (probe_cmd sp)])
               @ [MkDir (mkdtemp w)]
               @ map (\<lambda>i. Exec (normalize_cmd (ordered ! i) (child (mkdtemp w) (part_name i)) pr))
                   [0..<Suc k]
               @ [RmTree (mkdtemp w)]
         \<and> files (snd (main w a st)) = Set.filter (\<lambda>p. \<not> under (mkdtemp w) p) (files st)"
proof -
  have m: "main w a st =
      normal_path w pr ordered (resolve_user w (outfile a))
        (snd (resolve_size w a sp (snd (check_ffmpeg w st))))"
    using assms(3-9) main_after_planning [of w a st "()" sp]
    by (simp add: Let_def fld_def clips_def split: prod.splits)
  show ?thesis
    unfolding m normal_path_fails_at [OF assms(10-13)] resolve_size_state
      check_ffmpeg_ok [OF assms(5)]
    by (simp add: exit_code_def exit_status_def del: upt_Suc)
qed

lemma demo_planning:
  "is_dir demo_world demo_folder
   \<and> resolve_user demo_world (folder demo_args) = demo_folder
   \<and> enumerate_clips demo_world demo_folder \<noteq> []
   \<and> resolve_start demo_world demo_folder (enumerate_clips demo_world demo_folder) (start demo_args)
       = Inr (child demo_folder ''b.mp4'')
   \<and> [child demo_folder ''b.mp4'', child demo_folder ''a.MP4'', child demo_folder ''c.mp4'']
       = plan_order demo_world (seed demo_args) (enumerate_clips demo_world demo_folder)
           (child demo_folder ''b.mp4'')"
  by code_simp

lemma failing_world_planning:
  "is_dir (failing_world rc) (resolve_user (failing_world rc) (folder demo_args))
   \<and> fst (check_ffmpeg (failing_world rc) init) = Inr ()
   \<and> enumerate_clips (failing_world rc) (resolve_user (failing_world rc) (folder demo_args)) \<noteq> []
   \<and> resolve_start (failing_world rc) (resolve_user (failing_world rc) (folder demo_args))
         (enumerate_clips (failing_world rc) (resolve_user (failing_world rc) (folder demo_args)))
         (start demo_args) = Inr (child demo_folder ''b.mp4'')
   \<and> [child demo_folder ''b.mp4'', child demo_folder ''a.MP4'', child demo_folder ''c.mp4'']
       = plan_order (failing_world rc) (seed demo_args)
           (enumerate_clips (failing_world rc) (resolve_user (failing_world rc) (folder demo_args)))
           (child demo_folder ''b.mp4'')
   \<and> profile_of demo_args (1920, 1080)
       = profile_of demo_args
           (fst (resolve_size (failing_world rc) demo_args (child demo_folder ''b.mp4'')
                  (snd (check_ffmpeg (failing_world rc) init))))"
proof -
  note d = demo_planning
  have tools: "fst (check_ffmpeg (failing_world rc) init) = Inr ()"
    by (simp add: check_ffmpeg_def failing_world_def)
  have "spawn (failing_world rc) (probe_cmd (child demo_folder ''b.mp4'')) = Completed 0 []"
    by (simp add: failing_world_def probe_cmd_def)
  then have size: "fst (resolve_size (failing_world rc) demo_args (child demo_folder ''b.mp4'') s)
                   = (1920, 1080)" for s
    by (simp add: resolve_size_def probe_size_def probe_result_def parse_size_no_x
          demo_args_def truthy_def py_or_def)
  show ?thesis
    unfolding size
    using d tools
    by (simp add: failing_world_def enumerate_clips_other_spawn resolve_start_other_spawn
          plan_order_other_spawn)
qed

lemma failing_world_transcoder:
  "(\<forall>i<1. \<exists>printed.
      spawn (failing_world rc)
        (normalize_cmd
           ([child demo_folder ''b.mp4'', child demo_folder ''a.MP4'', child demo_folder ''c.mp4''] ! i)
           (child (mkdtemp (failing_world rc)) (part_name i)) (profile_of demo_args (1920, 1080)))
      = Completed 0 printed)
   \<and> spawn (failing_world rc)
        (normalize_cmd
           ([child demo_folder ''b.mp4'', child demo_folder ''a.MP4'', child demo_folder ''c.mp4''] ! 1)
           (child (mkdtemp (failing_world rc)) (part_name 1)) (profile_of demo_args (1920, 1080)))
      = Completed rc []"
  by (simp add: failing_world_def normalize_cmd_def as_posix_def child_def demo_folder_def Let_def)

theorem transcoder_failure_aborts_run_witness:
  "fst (main (failing_world 1) demo_args init) = Raised (SystemExit 1)
   \<and> exit_code (fst (main (failing_world 1) demo_args init)) = 1
   \<and> trace (snd (main (failing_world 1) demo_args init)) =
       [Exec [''ffmpeg'', ''-version''], Exec [''ffprobe'', ''-version''],
        Exec (probe_cmd (child demo_folder ''b.mp4'')),
        MkDir (mkdtemp (failing_world 1)),
        Exec (normalize_cmd (child demo_folder ''b.mp4'')
                (child (mkdtemp (failing_world 1)) ''part_0000.mp4'') (profile_of demo_args (1920, 1080))),
        Exec (normalize_cmd (child demo_folder ''a.MP4'')
                (child (mkdtemp (failing_world 1)) ''part_0001.mp4'') (profile_of demo_args (1920, 1080))),
        RmTree (mkdtemp (failing_world 1))]
   \<and> files (snd (main (failing_world 1) demo_args init)) = {}
   \<and> fst (main (failing_world (- 9)) demo_args init) = Raised (SystemExit (- 9))
   \<and> exit_code (fst (main (failing_world (- 9)) demo_args init)) = 247"
proof -
  let ?ordered = "[child demo_folder ''b.mp4'', child demo_folder ''a.MP4'', child demo_folder ''c.mp4'']"
  have nf: "\<not> fast demo_args" by (simp add: demo_args_def)
  have k: "1 < length ?ordered" by simp
  have p0: "part_name 0 = ''part_0000.mp4''" by code_simp
  have p1: "part_name (Suc 0) = ''part_0001.mp4''" by code_simp
  have sz: "\<not> (truthy (width demo_args) \<and> truthy (height demo_args))"
    by (simp add: demo_args_def truthy_def)
  note h = failing_world_planning
  note t = failing_world_transcoder
  have rc1: "(1::int) \<noteq> 0" and rc9: "(- 9::int) \<noteq> 0" by simp_all
  have one: "fst (main (failing_world 1) demo_args init) = Raised (SystemExit 1)
     \<and> exit_code (fst (main (failing_world 1) demo_args init)) = 1
     \<and> trace (snd (main (failing_world 1) demo_args init)) =
       [Exec [''ffmpeg'', ''-version''], Exec [''ffprobe'', ''-version''],
        Exec (probe_cmd (child demo_folder ''b.mp4'')),
        MkDir (mkdtemp (failing_world 1)),
        Exec (normalize_cmd (child demo_folder ''b.mp4'')
                (child (mkdtemp (failing_world 1)) ''part_0000.mp4'') (profile_of demo_args (1920, 1080))),
        Exec (normalize_cmd (child demo_folder ''a.MP4'')
                (child (mkdtemp (failing_world 1)) ''part_0001.mp4'') (profile_of demo_args (1920, 1080))),
        RmTree (mkdtemp (failing_world 1))]
     \<and> files (snd (main (failing_world 1) demo_args init)) = {}"
    using transcoder_failure_aborts_run
            [OF nf h [THEN conjunct1] h [THEN conjunct2, THEN conjunct1]
                h [THEN conjunct2, THEN conjunct2, THEN conjunct1]
                h [THEN conjunct2, THEN conjunct2, THEN conjunct2, THEN conjunct1]
                h [THEN conjunct2, THEN conjunct2, THEN conjunct2, THEN conjunct2, THEN conjunct1]
                h [THEN conjunct2, THEN conjunct2, THEN conjunct2, THEN conjunct2, THEN conjunct2]
                k t [THEN conjunct1] t [THEN conjunct2] rc1]
          sz
    by (simp add: init_def p0 p1 upt_conv_Cons exit_code_def exit_status_def del: upt_Suc)
  have nine: "fst (main (failing_world (- 9)) demo_args init) = Raised (SystemExit (- 9))
     \<and> exit_code (fst (main (failing_world (- 9)) demo_args init)) = 247"
    using transcoder_failure_aborts_run
            [OF nf h [THEN conjunct1] h [THEN conjunct2, THEN conjunct1]
                h [THEN conjunct2, THEN conjunct2, THEN conjunct1]
                h [THEN conjunct2, THEN conjunct2, THEN conjunct2, THEN conjunct1]
                h [THEN conjunct2, THEN conjunct2, THEN conjunct2, THEN conjunct2, THEN conjunct1]
                h [THEN conjunct2, THEN conjunct2, THEN conjunct2, THEN conjunct2, THEN conjunct2]
                k t [THEN conjunct1] t [THEN conjunct2] rc9]
    by (simp add: exit_code_def exit_status_def)
  from one nine show ?thesis by blast
qed

section \<open>Start resolution and the play order\<close>

lemma swap_mset: "i < length xs \<Longrightarrow> j < length xs \<Longrightarrow> mset (swap i j xs) = mset xs"
  by (simp add: swap_def mset_swap)

lemma swap_length: "length (swap i j xs) = length xs"
  by (simp add: swap_def)

lemma shuffle_loop_mset:
  "randbelow_ok rb \<Longrightarrow> k < length xs \<Longrightarrow> mset (fst (shuffle_loop rb k g xs)) = mset xs"
proof (induction k arbitrary: g xs)
  case 0
  then show ?case by simp
next
  case (Suc k)
  obtain j g' where draw: "rb g (Suc (Suc k)) = (j, g')" by (cases "rb g (Suc (Suc k))")
  from Suc.prems(1) have "fst (rb g (Suc (Suc k))) < Suc (Suc k)"
    by (simp add: randbelow_ok_def)
  with draw Suc.prems(2) have j: "j < length xs" by simp
  have "mset (fst (shuffle_loop rb k g' (swap (Suc k) j xs))) = mset (swap (Suc k) j xs)"
    using Suc.prems by (intro Suc.IH) (simp_all add: swap_length)
  with draw j Suc.prems(2) show ?case
    by (simp add: swap_mset)
qed

lemma shuffle_mset: "randbelow_ok rb \<Longrightarrow> mset (fst (shuffle rb g xs)) = mset xs"
  by (cases xs) (simp_all add: shuffle_def shuffle_loop_mset)

lemma filter_mset_absent:
  "x \<notin> set xs \<Longrightarrow> filter_mset (\<lambda>p. p \<noteq> x) (mset xs) = mset xs"
  by (induction xs) auto

text \<open>
  The order planner by itself keeps the invariant of the play order: given a generator
  that keeps its contract, distinct clips and a start that is one of them, the start comes
  first, the length is the number of clips, and the rest is a permutation of the others.
\<close>

lemma plan_order_permutes:
  assumes "randbelow_ok (randbelow w)" and "start_path \<in> set clips" and "distinct clips"
  shows "hd (plan_order w sd clips start_path) = start_path
         \<and> length (plan_order w sd clips start_path) = length clips
         \<and> mset (plan_order w sd clips start_path) = mset clips
         \<and> distinct (plan_order w sd clips start_path)
         \<and> mset (tl (plan_order w sd clips start_path)) = mset clips - {#start_path#}"
proof -
  let ?g = "case sd of Some n \<Rightarrow> seed_state w n | None \<Rightarrow> entropy w"
  let ?others = "filter (\<lambda>p. p \<noteq> start_path) clips"
  let ?sh = "fst (shuffle (randbelow w) ?g ?others)"
  have po: "plan_order w sd clips start_path = start_path # ?sh"
    by (simp add: plan_order_def Let_def)
  have sh: "mset ?sh = mset ?others"
    using assms(1) by (rule shuffle_mset)
  have others: "mset ?others = mset clips - {#start_path#}"
    using assms(2,3) by (induction clips) (auto simp: filter_mset_absent)
  have all: "mset (start_path # ?sh) = mset clips"
    using sh others assms(2) by simp
  have len: "length (start_path # ?sh) = length clips"
    using all by (metis size_mset)
  have dist: "distinct (start_path # ?sh)"
    using all assms(3) by (metis distinct_count_atmost_1 set_mset_mset)
  show ?thesis
    unfolding po using all len dist sh others by simp
qed

lemma inj_child: "inj_on (child d) A"
  by (rule inj_onI) (simp add: child_def)

lemma enumerate_clips_distinct: "distinct (iterdir w d) \<Longrightarrow> distinct (enumerate_clips w d)"
  by (simp add: enumerate_clips_def distinct_map inj_child)

lemma normal_path_result:
  "fst (normal_path w pr ordered out st) = Returned c \<Longrightarrow> c = 0"
  by (auto simp: normal_path_def Let_def split: prod.splits sum.splits)

text \<open>
  C1. The play order is specified to start with the starting clip, to be as long as the
  list of enumerated clips, and to hold exactly the other clips after the start, in every
  run that reaches order planning. The code breaks this when \<^verbatim>\<open>--start\<close> names something that exists but is
  not an enumerated clip, since \<^verbatim>\<open>main\<close> only asks whether the path exists. In the
  sample folder, \<^verbatim>\<open>--start /videos/intro.mp4\<close> reaches order planning, and the play
  order of the three clips has four entries, headed by a file from outside the folder.
\<close>

theorem start_outside_clips_heads_play_order:
  "enumerate_clips demo_world demo_folder =
       [child demo_folder ''a.MP4'', child demo_folder ''b.mp4'', child demo_folder ''c.mp4'']
   \<and> resolve_start demo_world demo_folder (enumerate_clips demo_world demo_folder)
         ''/videos/intro.mp4''
       = Inr (Path [''videos'', ''intro.mp4''])
   \<and> plan_order demo_world (Some 7) (enumerate_clips demo_world demo_folder)
        (Path [''videos'', ''intro.mp4''])
       = [Path [''videos'', ''intro.mp4''], child demo_folder ''c.mp4'',
          child demo_folder ''a.MP4'', child demo_folder ''b.mp4'']
   \<and> length (plan_order demo_world (Some 7) (enumerate_clips demo_world demo_folder)
        (Path [''videos'', ''intro.mp4''])) = 4
   \<and> length (enumerate_clips demo_world demo_folder) = 3"
  by code_simp

text \<open>
  C2. A start that matches no enumerated clip is specified to end the run with the
  start-not-found status 4, even if a file of that name or path exists elsewhere. The code
  returns 4 only when the path does not exist at all. In the sample folder
  \<^verbatim>\<open>--start /videos/intro.mp4\<close> is no enumerated clip, by path or by name, yet it is
  accepted: the run probes that file and goes on to normalize and join with it as the
  first clip; whatever happens then, it does not return 4.
\<close>

theorem start_outside_clips_is_accepted:
  "Path [''videos'', ''intro.mp4''] \<notin> set (enumerate_clips demo_world demo_folder)
   \<and> filter (\<lambda>p. name p = ''/videos/intro.mp4'') (enumerate_clips demo_world demo_folder) = []
   \<and> resolve_start demo_world demo_folder (enumerate_clips demo_world demo_folder)
         ''/videos/intro.mp4''
       = Inr (Path [''videos'', ''intro.mp4''])
   \<and> main demo_world (demo_args\<lparr>start := ''/videos/intro.mp4''\<rparr>) init
       = normal_path demo_world (profile_of (demo_args\<lparr>start := ''/videos/intro.mp4''\<rparr>) (1920, 1080))
           [Path [''videos'', ''intro.mp4''], child demo_folder ''c.mp4'',
            child demo_folder ''a.MP4'', child demo_folder ''b.mp4'']
           (Path [''Sora_Reel.mp4''])
           \<lparr>files = {},
            trace = [Exec [''ffmpeg'', ''-version''], Exec [''ffprobe'', ''-version''],
                     Exec (probe_cmd (Path [''videos'', ''intro.mp4'']))]\<rparr>
   \<and> fst (main demo_world (demo_args\<lparr>start := ''/videos/intro.mp4''\<rparr>) init) \<noteq> Returned 4"
proof -
  let ?a = "demo_args\<lparr>start := ''/videos/intro.mp4''\<rparr>"
  let ?n = "Path [''videos'', ''intro.mp4'']"
  have absent: "?n \<notin> set (enumerate_clips demo_world demo_folder)"
    by code_simp
  have none: "filter (\<lambda>p. name p = ''/videos/intro.mp4'') (enumerate_clips demo_world demo_folder) = []"
    by code_simp
  have fld: "resolve_user demo_world (folder ?a) = demo_folder"
    by code_simp
  have dir: "is_dir demo_world demo_folder"
    by (simp add: demo_world_def)
  have tools: "check_ffmpeg demo_world init =
      (Inr (), \<lparr>files = {}, trace = [Exec [''ffmpeg'', ''-version''], Exec [''ffprobe'', ''-version'']]\<rparr>)"
    by (simp add: check_ffmpeg_def demo_world_def init_def emit_def)
  have some: "enumerate_clips demo_world demo_folder \<noteq> []"
    by code_simp
  have start: "resolve_start demo_world demo_folder (enumerate_clips demo_world demo_folder) (start ?a)
               = Inr ?n"
    by code_simp
  have order: "plan_order demo_world (seed ?a) (enumerate_clips demo_world demo_folder) ?n
               = [?n, child demo_folder ''c.mp4'', child demo_folder ''a.MP4'', child demo_folder ''b.mp4'']"
    by code_simp
  have size: "resolve_size demo_world ?a ?n
                \<lparr>files = {}, trace = [Exec [''ffmpeg'', ''-version''], Exec [''ffprobe'', ''-version'']]\<rparr>
              = ((1920, 1080),
                 \<lparr>files = {}, trace = [Exec [''ffmpeg'', ''-version''], Exec [''ffprobe'', ''-version''],
                                       Exec (probe_cmd ?n)]\<rparr>)"
    by (simp add: resolve_size_def probe_size_def probe_result_def parse_size_def strip_def
          emit_def demo_world_def demo_args_def truthy_def py_or_def)
  have out: "resolve_user demo_world (outfile demo_args) = Path [''Sora_Reel.mp4'']"
    by code_simp
  have nf: "\<not> fast ?a" by (simp add: demo_args_def)
  have m: "main demo_world ?a init
       = normal_path demo_world (profile_of ?a (1920, 1080))
           [?n, child demo_folder ''c.mp4'', child demo_folder ''a.MP4'', child demo_folder ''b.mp4'']
           (Path [''Sora_Reel.mp4''])
           \<lparr>files = {},
            trace = [Exec [''ffmpeg'', ''-version''], Exec [''ffprobe'', ''-version''],
                     Exec (probe_cmd ?n)]\<rparr>"
    using main_after_planning [of demo_world ?a init "()" ?n] dir some start
    unfolding fld tools order
    by (simp add: size out nf)
  have "fst (main demo_world ?a init) \<noteq> Returned 4"
    unfolding m using normal_path_result by force
  with absent none start m show ?thesis by simp
qed

end
